theory Spec2Isabelle
  imports
    Complex_Main
    "HOL-Library.Multiset"
    "HOL-Library.List_Lexorder"
    "HOL-Library.Char_ord"
begin

section \<open>The relational schema\<close>

text \<open>
  Every table of the schema is a record whose fields are the columns the ORM declares,
  named \<open>table_column\<close> after the source's \<open>table.column\<close>. A nullable column is an
  \<open>option\<close> (\<open>None\<close> is SQL NULL). Text is ordered lexicographically by character code;
  a timestamp is a point on an integer time line. The \<open>failure_rate\<close> column is a double
  that no query of this development inspects; it is carried as a rational.
\<close>

type_synonym timestamp = int

datatype busy_level = Busy1 | Busy2 | Busy3 | Busy4

datatype importance_level = A | B | C

record Base =
  bases_baseId :: int
  bases_baseName :: string
  bases_createdAt :: "timestamp option"
  bases_updatedAt :: "timestamp option"

record Workshop =
  workshops_workshopId :: int
  workshops_baseId :: int
  workshops_workshopName :: string
  workshops_busyLevel :: busy_level
  workshops_createdAt :: "timestamp option"
  workshops_updatedAt :: "timestamp option"

record EquipmentType =
  equipmentTypes_typeId :: int
  equipmentTypes_typeName :: string
  equipmentTypes_lifecycleYears :: "int option"
  equipmentTypes_createdAt :: "timestamp option"
  equipmentTypes_updatedAt :: "timestamp option"

record Equipment =
  equipment_equipmentId :: int
  equipment_workshopId :: int
  equipment_typeId :: int
  equipment_equipmentName :: string
  equipment_createdAt :: "timestamp option"
  equipment_updatedAt :: "timestamp option"

record Component =
  components_componentId :: int
  components_typeId :: int
  components_componentName :: string
  components_importanceLevel :: importance_level
  components_failureRate :: "rat option"
  components_lifecycleYears :: "int option"
  components_createdAt :: "timestamp option"
  components_updatedAt :: "timestamp option"

record SparePart =
  spareParts_sparePartId :: int
  spareParts_materialCode :: string
  spareParts_manufacturer :: string
  spareParts_manufacturerMaterialCode :: "string option"
  spareParts_specification :: "string option"
  spareParts_description :: "string option"
  spareParts_isCustom :: "bool option"
  spareParts_createdAt :: "timestamp option"
  spareParts_updatedAt :: "timestamp option"

record SparePartSupplier =
  sparePartSuppliers_supplierId :: int
  sparePartSuppliers_sparePartId :: int
  sparePartSuppliers_supplierName :: string
  sparePartSuppliers_supplyCycleWeeks :: int
  sparePartSuppliers_createdAt :: "timestamp option"
  sparePartSuppliers_updatedAt :: "timestamp option"

record EquipmentComponentSparePart =
  ecsp_id :: int
  ecsp_equipmentId :: int
  ecsp_componentId :: int
  ecsp_sparePartId :: int
  ecsp_quantity :: "int option"
  ecsp_createdAt :: "timestamp option"
  ecsp_updatedAt :: "timestamp option"

text \<open>
  The database is the list of rows of each table, in the order a sequential scan yields
  them, and the next value of the \<open>spare_part_id\<close> serial.
\<close>

record database =
  bases :: "Base list"
  workshops :: "Workshop list"
  equipmentTypes :: "EquipmentType list"
  equipment :: "Equipment list"
  components :: "Component list"
  spareParts :: "SparePart list"
  sparePartSuppliers :: "SparePartSupplier list"
  equipmentComponentSpareParts :: "EquipmentComponentSparePart list"
  spareParts_seq :: int

datatype db_error =
  ForeignKeyViolation
  | InvalidEnumValue
  | NegativeOffset

section \<open>SQL as list operations\<close>

text \<open>
  Three-valued logic: a condition evaluates to \<open>Some True\<close>, \<open>Some False\<close> or \<open>None\<close>
  (unknown, from a comparison with NULL); WHERE keeps the rows on which it is \<open>Some True\<close>.
\<close>

type_synonym tv = "bool option"

fun tv_and :: "tv \<Rightarrow> tv \<Rightarrow> tv" where
  "tv_and (Some False) _ = Some False"
| "tv_and _ (Some False) = Some False"
| "tv_and (Some True) (Some True) = Some True"
| "tv_and _ _ = None"

fun tv_or :: "tv \<Rightarrow> tv \<Rightarrow> tv" where
  "tv_or (Some True) _ = Some True"
| "tv_or _ (Some True) = Some True"
| "tv_or (Some False) (Some False) = Some False"
| "tv_or _ _ = None"

text \<open>\<open>and(...conditions)\<close> and \<open>or(...)\<close> of the query builder, over a row \<open>r\<close>.\<close>

definition and_all :: "('r \<Rightarrow> tv) list \<Rightarrow> 'r \<Rightarrow> tv" where
  "and_all cs r = foldr (\<lambda>c acc. tv_and (c r) acc) cs (Some True)"

definition or_all :: "('r \<Rightarrow> tv) list \<Rightarrow> 'r \<Rightarrow> tv" where
  "or_all cs r = foldr (\<lambda>c acc. tv_or (c r) acc) cs (Some False)"

definition sql_where :: "('r \<Rightarrow> tv) \<Rightarrow> 'r list \<Rightarrow> 'r list" where
  "sql_where c rows = filter (\<lambda>r. c r = Some True) rows"

text \<open>\<open>eq(column, value)\<close> on a non-null column, and on a nullable one.\<close>

definition sql_eq :: "('r \<Rightarrow> 'a) \<Rightarrow> 'a \<Rightarrow> 'r \<Rightarrow> tv" where
  "sql_eq col v r = Some (col r = v)"

definition sql_eq_null :: "('r \<Rightarrow> 'a option) \<Rightarrow> 'a \<Rightarrow> 'r \<Rightarrow> tv" where
  "sql_eq_null col v r = map_option (\<lambda>x. x = v) (col r)"

text \<open>
  \<open>a.innerJoin(b, on)\<close>: every pair of a left row and a right row that satisfies the join
  condition, left rows in order. \<open>a.leftJoin(b, on)\<close> keeps a left row without a partner,
  paired with NULL.
\<close>

definition innerJoin :: "'a list \<Rightarrow> 'b list \<Rightarrow> ('a \<Rightarrow> 'b \<Rightarrow> bool) \<Rightarrow> ('a \<times> 'b) list" where
  "innerJoin xs ys on = concat (map (\<lambda>x. map (Pair x) (filter (on x) ys)) xs)"

definition leftJoin :: "'a list \<Rightarrow> 'b list \<Rightarrow> ('a \<Rightarrow> 'b \<Rightarrow> bool) \<Rightarrow> ('a \<times> 'b option) list" where
  "leftJoin xs ys on =
     concat (map (\<lambda>x. case filter (on x) ys of
                         [] \<Rightarrow> [(x, None)]
                       | m # ms \<Rightarrow> map (\<lambda>y. (x, Some y)) (m # ms)) xs)"

text \<open>
  \<open>ORDER BY\<close> with a comparison \<open>le\<close>: a stable insertion sort. SQL leaves the order of
  rows with equal keys open; the stable order is one admissible outcome.
\<close>

fun insort_by :: "('r \<Rightarrow> 'r \<Rightarrow> bool) \<Rightarrow> 'r \<Rightarrow> 'r list \<Rightarrow> 'r list" where
  "insort_by le x [] = [x]"
| "insort_by le x (y # ys) = (if le x y then x # y # ys else y # insort_by le x ys)"

definition orderBy :: "('r \<Rightarrow> 'r \<Rightarrow> bool) \<Rightarrow> 'r list \<Rightarrow> 'r list" where
  "orderBy le rows = foldr (insort_by le) rows []"

text \<open>
  \<open>query.limit(l).offset(o)\<close>: the query builder writes \<open>LIMIT l\<close> only for \<open>l \<ge> 0\<close>, so a
  negative limit leaves the query unlimited, and it writes \<open>OFFSET o\<close> only for \<open>o \<noteq> 0\<close>;
  PostgreSQL rejects a negative offset. Otherwise the first \<open>o\<close> rows are skipped and, with
  a limit, at most \<open>l\<close> rows are returned.
\<close>

definition limit_offset :: "int \<Rightarrow> int \<Rightarrow> 'r list \<Rightarrow> db_error + 'r list" where
  "limit_offset l off rows =
     (if off < 0 then Inl NegativeOffset
      else if l < 0 then Inr (drop (nat off) rows)
      else Inr (take (nat l) (drop (nat off) rows)))"

text \<open>
  \<open>column LIKE pattern\<close> with PostgreSQL's defaults: \<open>%\<close> matches any run of characters,
  \<open>_\<close> any single character, and a backslash makes the next pattern character literal.
  A pattern that ends in a lone backslash is an error in PostgreSQL; the patterns built
  here all end in \<open>%\<close>, and the case is mapped to no match.
\<close>

fun like_match :: "string \<Rightarrow> string \<Rightarrow> bool" where
  "like_match [] s = (s = [])"
| "like_match (p # ps) s =
     (if p = CHR ''%'' then
        (case s of [] \<Rightarrow> like_match ps [] | c # cs \<Rightarrow> like_match ps (c # cs) \<or> like_match (p # ps) cs)
      else if p = CHR ''_'' then
        (case s of [] \<Rightarrow> False | c # cs \<Rightarrow> like_match ps cs)
      else if p = CHR 0x5C then
        (case ps of
           [] \<Rightarrow> False
         | q # qs \<Rightarrow> (case s of [] \<Rightarrow> False | c # cs \<Rightarrow> c = q \<and> like_match qs cs))
      else
        (case s of [] \<Rightarrow> False | c # cs \<Rightarrow> c = p \<and> like_match ps cs))"

declare like_match.simps [simp del]

text \<open>\<open>like(column, `%${k}%`)\<close> on a non-null and on a nullable text column.\<close>

definition sql_like :: "('r \<Rightarrow> string) \<Rightarrow> string \<Rightarrow> 'r \<Rightarrow> tv" where
  "sql_like col k r = Some (like_match (''%'' @ k @ ''%'') (col r))"

definition sql_like_null :: "('r \<Rightarrow> string option) \<Rightarrow> string \<Rightarrow> 'r \<Rightarrow> tv" where
  "sql_like_null col k r = map_option (like_match (''%'' @ k @ ''%'')) (col r)"

text \<open>\<open>const [row] = await db.select()...\<close>: the first row of the result, if any.\<close>

definition first_row :: "'r list \<Rightarrow> 'r option" where
  "first_row rows = (case rows of [] \<Rightarrow> None | r # _ \<Rightarrow> Some r)"

section \<open>HTTP responses\<close>

datatype 'a response =
  Ok200 'a
  | Created201 'a
  | BadRequest400 string
  | NotFound404 string
  | ServerError500 db_error

fun status :: "'a response \<Rightarrow> nat" where
  "status (Ok200 _) = 200"
| "status (Created201 _) = 201"
| "status (BadRequest400 _) = 400"
| "status (NotFound404 _) = 404"
| "status (ServerError500 _) = 500"

section \<open>Bases\<close>

text \<open>
  \<open>db.delete(bases).where(eq(bases.baseId, id))\<close>: the statement fails when a workshop
  still references a row it would remove; otherwise the rows are removed and the driver
  resolves to a result object that carries the number of rows affected.
\<close>

record query_result =
  rowCount :: nat

definition delete_bases :: "database \<Rightarrow> int \<Rightarrow> db_error + (database \<times> query_result)" where
  "delete_bases db i =
     (let victims = filter (\<lambda>b. bases_baseId b = i) (bases db) in
      if \<exists>w \<in> set (workshops db). \<exists>b \<in> set victims. workshops_baseId w = bases_baseId b
      then Inl ForeignKeyViolation
      else Inr (db\<lparr>bases := filter (\<lambda>b. bases_baseId b \<noteq> i) (bases db)\<rparr>,
                \<lparr>rowCount = length victims\<rparr>))"

text \<open>\<open>!!result\<close> on the driver's result: a JavaScript object is truthy, whatever it holds.\<close>

definition truthy_result :: "query_result \<Rightarrow> bool" where
  "truthy_result r = True"

definition deleteBase :: "database \<Rightarrow> int \<Rightarrow> db_error + (database \<times> bool)" where
  "deleteBase db i =
     (case delete_bases db i of
        Inl e \<Rightarrow> Inl e
      | Inr (db', result) \<Rightarrow> Inr (db', truthy_result result))"

datatype success = Success

text \<open>\<open>DELETE /api/bases/:id\<close>: the new database and the response.\<close>

definition delete_api_bases :: "database \<Rightarrow> int \<Rightarrow> database \<times> success response" where
  "delete_api_bases db i =
     (case deleteBase db i of
        Inl e \<Rightarrow> (db, ServerError500 e)
      | Inr (db', result) \<Rightarrow>
          if \<not> result then (db', NotFound404 ''Base not found or could not be deleted'')
          else (db', Ok200 Success))"

definition getBase :: "database \<Rightarrow> int \<Rightarrow> Base option" where
  "getBase db i = first_row (sql_where (sql_eq bases_baseId i) (bases db))"

section \<open>Workshops\<close>

text \<open>
  \<open>if (baseId)\<close> and its siblings test a number for truthiness: \<open>undefined\<close> and \<open>0\<close>
  are both falsy.
\<close>

definition truthy_num :: "int option \<Rightarrow> bool" where
  "truthy_num n = (case n of None \<Rightarrow> False | Some v \<Rightarrow> v \<noteq> 0)"

definition truthy_str :: "string option \<Rightarrow> bool" where
  "truthy_str s = (case s of None \<Rightarrow> False | Some v \<Rightarrow> v \<noteq> [])"

definition getWorkshops :: "database \<Rightarrow> int option \<Rightarrow> Workshop list" where
  "getWorkshops db baseId =
     (let query = workshops db;
          query = (if truthy_num baseId
                   then sql_where (sql_eq workshops_baseId (the baseId)) query
                   else query)
      in orderBy (\<lambda>a b. workshops_workshopName a \<le> workshops_workshopName b) query)"

section \<open>Equipment listing\<close>

record equipments_params =
  ep_workshopId :: "int option"
  ep_typeId :: "int option"
  ep_baseId :: "int option"
  ep_search :: "string option"
  ep_page :: "int option"
  ep_limit :: "int option"
  ep_sortBy :: "string option"
  ep_sortOrder :: "string option"

text \<open>The row the equipment query selects.\<close>

record equipment_row =
  er_equipmentId :: int
  er_workshopId :: int
  er_typeId :: int
  er_equipmentName :: string
  er_createdAt :: "timestamp option"
  er_updatedAt :: "timestamp option"
  er_workshopName :: string
  er_typeName :: string
  er_baseId :: int
  er_baseName :: string

type_synonym equipment_join = "((Equipment \<times> Workshop) \<times> EquipmentType) \<times> Base"

definition ej_equipment :: "equipment_join \<Rightarrow> Equipment" where
  "ej_equipment j = fst (fst (fst j))"

definition ej_workshops :: "equipment_join \<Rightarrow> Workshop" where
  "ej_workshops j = snd (fst (fst j))"

definition ej_equipmentTypes :: "equipment_join \<Rightarrow> EquipmentType" where
  "ej_equipmentTypes j = snd (fst j)"

definition ej_bases :: "equipment_join \<Rightarrow> Base" where
  "ej_bases j = snd j"

text \<open>
  \<open>from(equipment).innerJoin(workshops, ...).innerJoin(equipmentTypes, ...).innerJoin(bases, ...)\<close>
\<close>

definition equipment_joined :: "database \<Rightarrow> equipment_join list" where
  "equipment_joined db =
     innerJoin
       (innerJoin
          (innerJoin (equipment db) (workshops db)
             (\<lambda>e w. equipment_workshopId e = workshops_workshopId w))
          (equipmentTypes db)
          (\<lambda>ew t. equipment_typeId (fst ew) = equipmentTypes_typeId t))
       (bases db)
       (\<lambda>ewt b. workshops_baseId (snd (fst ewt)) = bases_baseId b)"

definition select_equipment_row :: "equipment_join \<Rightarrow> equipment_row" where
  "select_equipment_row j =
     \<lparr>er_equipmentId = equipment_equipmentId (ej_equipment j),
      er_workshopId = equipment_workshopId (ej_equipment j),
      er_typeId = equipment_typeId (ej_equipment j),
      er_equipmentName = equipment_equipmentName (ej_equipment j),
      er_createdAt = equipment_createdAt (ej_equipment j),
      er_updatedAt = equipment_updatedAt (ej_equipment j),
      er_workshopName = workshops_workshopName (ej_workshops j),
      er_typeName = equipmentTypes_typeName (ej_equipmentTypes j),
      er_baseId = workshops_baseId (ej_workshops j),
      er_baseName = bases_baseName (ej_bases j)\<rparr>"

text \<open>The conditions array, in the order the pushes run.\<close>

definition equipment_conditions :: "equipments_params \<Rightarrow> (equipment_join \<Rightarrow> tv) list" where
  "equipment_conditions p =
     (if truthy_num (ep_workshopId p)
      then [sql_eq (\<lambda>j. equipment_workshopId (ej_equipment j)) (the (ep_workshopId p))] else [])
     @ (if truthy_num (ep_typeId p)
        then [sql_eq (\<lambda>j. equipment_typeId (ej_equipment j)) (the (ep_typeId p))] else [])
     @ (if truthy_str (ep_search p)
        then [sql_like (\<lambda>j. equipment_equipmentName (ej_equipment j)) (the (ep_search p))] else [])
     @ (if truthy_num (ep_baseId p)
        then [sql_eq (\<lambda>j. workshops_baseId (ej_workshops j)) (the (ep_baseId p))] else [])"

text \<open>\<open>conditions.length > 0 ? query.where(and(...conditions)) : query\<close>\<close>

definition where_conditions :: "('r \<Rightarrow> tv) list \<Rightarrow> 'r list \<Rightarrow> 'r list" where
  "where_conditions conditions query =
     (if length conditions > 0 then sql_where (and_all conditions) query else query)"

text \<open>
  \<open>asc(column)\<close> and \<open>desc(column)\<close> as comparisons of two rows. On a nullable column
  PostgreSQL sorts NULL as larger than every value (last ascending, first descending).
\<close>

definition asc :: "('r \<Rightarrow> 'k::linorder) \<Rightarrow> 'r \<Rightarrow> 'r \<Rightarrow> bool" where
  "asc col a b = (col a \<le> col b)"

definition desc :: "('r \<Rightarrow> 'k::linorder) \<Rightarrow> 'r \<Rightarrow> 'r \<Rightarrow> bool" where
  "desc col a b = (col b \<le> col a)"

fun null_le :: "'k::linorder option \<Rightarrow> 'k option \<Rightarrow> bool" where
  "null_le _ None = True"
| "null_le None (Some _) = False"
| "null_le (Some x) (Some y) = (x \<le> y)"

definition asc_null :: "('r \<Rightarrow> 'k::linorder option) \<Rightarrow> 'r \<Rightarrow> 'r \<Rightarrow> bool" where
  "asc_null col a b = null_le (col a) (col b)"

definition desc_null :: "('r \<Rightarrow> 'k::linorder option) \<Rightarrow> 'r \<Rightarrow> 'r \<Rightarrow> bool" where
  "desc_null col a b = null_le (col b) (col a)"

text \<open>The sorting block: a field name outside the six leaves the query unordered.\<close>

definition apply_sorting :: "string \<Rightarrow> string \<Rightarrow> equipment_join list \<Rightarrow> equipment_join list" where
  "apply_sorting sortBy sortOrder filteredQuery =
     (if sortBy \<noteq> [] \<and> sortOrder \<noteq> [] then
        (let orderField = sortBy in
         if sortOrder = ''asc'' then
           (if orderField = ''equipmentId''
              then orderBy (asc (\<lambda>j. equipment_equipmentId (ej_equipment j))) filteredQuery
            else if orderField = ''equipmentName''
              then orderBy (asc (\<lambda>j. equipment_equipmentName (ej_equipment j))) filteredQuery
            else if orderField = ''workshopName''
              then orderBy (asc (\<lambda>j. workshops_workshopName (ej_workshops j))) filteredQuery
            else if orderField = ''typeName''
              then orderBy (asc (\<lambda>j. equipmentTypes_typeName (ej_equipmentTypes j))) filteredQuery
            else if orderField = ''baseName''
              then orderBy (asc (\<lambda>j. bases_baseName (ej_bases j))) filteredQuery
            else if orderField = ''createdAt''
              then orderBy (asc_null (\<lambda>j. equipment_createdAt (ej_equipment j))) filteredQuery
            else filteredQuery)
         else
           (if orderField = ''equipmentId''
              then orderBy (desc (\<lambda>j. equipment_equipmentId (ej_equipment j))) filteredQuery
            else if orderField = ''equipmentName''
              then orderBy (desc (\<lambda>j. equipment_equipmentName (ej_equipment j))) filteredQuery
            else if orderField = ''workshopName''
              then orderBy (desc (\<lambda>j. workshops_workshopName (ej_workshops j))) filteredQuery
            else if orderField = ''typeName''
              then orderBy (desc (\<lambda>j. equipmentTypes_typeName (ej_equipmentTypes j))) filteredQuery
            else if orderField = ''baseName''
              then orderBy (desc (\<lambda>j. bases_baseName (ej_bases j))) filteredQuery
            else if orderField = ''createdAt''
              then orderBy (desc_null (\<lambda>j. equipment_createdAt (ej_equipment j))) filteredQuery
            else filteredQuery))
      else filteredQuery)"

text \<open>
  \<open>getEquipments\<close>: the defaults of the destructuring, the count query, the sorted and
  paginated data query. A failing data query makes the whole call fail.
\<close>

definition getEquipments ::
  "database \<Rightarrow> equipments_params \<Rightarrow> db_error + (equipment_row list \<times> int)" where
  "getEquipments db params =
     (let page = (case ep_page params of None \<Rightarrow> 1 | Some v \<Rightarrow> v);
          limit = (case ep_limit params of None \<Rightarrow> 10 | Some v \<Rightarrow> v);
          sortBy = (case ep_sortBy params of None \<Rightarrow> ''equipment_id'' | Some v \<Rightarrow> v);
          sortOrder = (case ep_sortOrder params of None \<Rightarrow> ''asc'' | Some v \<Rightarrow> v);
          conditions = equipment_conditions params;
          query = equipment_joined db;
          filteredQuery = where_conditions conditions query;
          total = int (length (where_conditions conditions (equipment_joined db)));
          filteredQuery = apply_sorting sortBy sortOrder filteredQuery;
          offset = (page - 1) * limit
      in case limit_offset limit offset filteredQuery of
           Inl e \<Rightarrow> Inl e
         | Inr rows \<Rightarrow> Inr (map select_equipment_row rows, total))"

text \<open>
  \<open>GET /api/equipment\<close>. The request carries the query parameters already decoded: an id,
  \<open>page\<close> or \<open>limit\<close> is \<open>None\<close> when the parameter is absent or empty and the parsed integer
  otherwise (a parameter that does not parse as an integer is outside this model).
  \<open>Math.ceil(total / limit)\<close> is the exact ceiling of the quotient; with \<open>limit = 0\<close> it is
  not a finite number and serialises as \<open>null\<close>.
\<close>

record equipment_query =
  eq_workshopId :: "int option"
  eq_typeId :: "int option"
  eq_baseId :: "int option"
  eq_search :: "string option"
  eq_page :: "int option"
  eq_limit :: "int option"
  eq_sortBy :: "string option"
  eq_sortOrder :: "string option"

record pagination =
  pg_page :: int
  pg_limit :: int
  pg_total :: int
  pg_totalPages :: "int option"

definition math_ceil_div :: "int \<Rightarrow> int \<Rightarrow> int option" where
  "math_ceil_div n limit = (if limit = 0 then None else Some (- ((- n) div limit)))"

text \<open>The \<open>params\<close> object the handler builds from the request.\<close>

definition equipment_params :: "equipment_query \<Rightarrow> equipments_params" where
  "equipment_params q =
     \<lparr>ep_workshopId = eq_workshopId q,
      ep_typeId = eq_typeId q,
      ep_baseId = eq_baseId q,
      ep_search = eq_search q,
      ep_page = Some (case eq_page q of None \<Rightarrow> 1 | Some v \<Rightarrow> v),
      ep_limit = Some (case eq_limit q of None \<Rightarrow> 10 | Some v \<Rightarrow> v),
      ep_sortBy = eq_sortBy q,
      ep_sortOrder = Some (if truthy_str (eq_sortOrder q) then the (eq_sortOrder q) else ''asc'')\<rparr>"

definition get_api_equipment ::
  "database \<Rightarrow> equipment_query \<Rightarrow> (equipment_row list \<times> pagination) response" where
  "get_api_equipment db q =
     (let params = equipment_params q
      in case getEquipments db params of
           Inl e \<Rightarrow> ServerError500 e
         | Inr (rows, n) \<Rightarrow>
             Ok200 (rows,
                    \<lparr>pg_page = the (ep_page params),
                     pg_limit = the (ep_limit params),
                     pg_total = n,
                     pg_totalPages = math_ceil_div n (the (ep_limit params))\<rparr>))"

section \<open>Association listing\<close>

record associations_params =
  ap_equipmentId :: "int option"
  ap_componentId :: "int option"
  ap_sparePartId :: "int option"
  ap_importanceLevel :: "string list option"
  ap_supplyCycleRange :: "int list option"
  ap_isCustom :: "bool option"
  ap_keyword :: "string option"

text \<open>The row the association query selects; \<open>sparePartName\<close> is the part's description.\<close>

record association_row =
  ar_id :: int
  ar_equipmentId :: int
  ar_componentId :: int
  ar_sparePartId :: int
  ar_quantity :: "int option"
  ar_createdAt :: "timestamp option"
  ar_updatedAt :: "timestamp option"
  ar_equipmentName :: string
  ar_componentName :: string
  ar_importanceLevel :: importance_level
  ar_materialCode :: string
  ar_sparePartName :: "string option"
  ar_specification :: "string option"
  ar_manufacturer :: string

type_synonym association_join =
  "(((EquipmentComponentSparePart \<times> Equipment) \<times> Component) \<times> SparePart) \<times> SparePartSupplier option"

definition aj_ecsp :: "association_join \<Rightarrow> EquipmentComponentSparePart" where
  "aj_ecsp j = fst (fst (fst (fst j)))"

definition aj_equipment :: "association_join \<Rightarrow> Equipment" where
  "aj_equipment j = snd (fst (fst (fst j)))"

definition aj_components :: "association_join \<Rightarrow> Component" where
  "aj_components j = snd (fst (fst j))"

definition aj_spareParts :: "association_join \<Rightarrow> SparePart" where
  "aj_spareParts j = snd (fst j)"

definition aj_sparePartSuppliers :: "association_join \<Rightarrow> SparePartSupplier option" where
  "aj_sparePartSuppliers j = snd j"

text \<open>
  \<open>from(equipmentComponentSpareParts).innerJoin(equipment, ...).innerJoin(components, ...)
  .innerJoin(spareParts, ...).leftJoin(sparePartSuppliers, ...)\<close>
\<close>

definition association_joined :: "database \<Rightarrow> association_join list" where
  "association_joined db =
     leftJoin
       (innerJoin
          (innerJoin
             (innerJoin (equipmentComponentSpareParts db) (equipment db)
                (\<lambda>a e. ecsp_equipmentId a = equipment_equipmentId e))
             (components db)
             (\<lambda>ae c. ecsp_componentId (fst ae) = components_componentId c))
          (spareParts db)
          (\<lambda>aec s. ecsp_sparePartId (fst (fst aec)) = spareParts_sparePartId s))
       (sparePartSuppliers db)
       (\<lambda>aecs u. spareParts_sparePartId (snd aecs) = sparePartSuppliers_sparePartId u)"

definition select_association_row :: "association_join \<Rightarrow> association_row" where
  "select_association_row j =
     \<lparr>ar_id = ecsp_id (aj_ecsp j),
      ar_equipmentId = ecsp_equipmentId (aj_ecsp j),
      ar_componentId = ecsp_componentId (aj_ecsp j),
      ar_sparePartId = ecsp_sparePartId (aj_ecsp j),
      ar_quantity = ecsp_quantity (aj_ecsp j),
      ar_createdAt = ecsp_createdAt (aj_ecsp j),
      ar_updatedAt = ecsp_updatedAt (aj_ecsp j),
      ar_equipmentName = equipment_equipmentName (aj_equipment j),
      ar_componentName = components_componentName (aj_components j),
      ar_importanceLevel = components_importanceLevel (aj_components j),
      ar_materialCode = spareParts_materialCode (aj_spareParts j),
      ar_sparePartName = spareParts_description (aj_spareParts j),
      ar_specification = spareParts_specification (aj_spareParts j),
      ar_manufacturer = spareParts_manufacturer (aj_spareParts j)\<rparr>"

text \<open>
  The values of \<open>inArray(components.importanceLevel, ...)\<close> are bound as literals of the
  enum \<open>importance_level\<close>; a string that is not one of its labels makes the statement fail.
\<close>

fun importance_level_of :: "string \<Rightarrow> importance_level option" where
  "importance_level_of s =
     (if s = ''A'' then Some A else if s = ''B'' then Some B else if s = ''C'' then Some C
      else None)"

fun enum_literals :: "string list \<Rightarrow> importance_level list option" where
  "enum_literals [] = Some []"
| "enum_literals (s # ss) =
     (case importance_level_of s of
        None \<Rightarrow> None
      | Some l \<Rightarrow> (case enum_literals ss of None \<Rightarrow> None | Some ls \<Rightarrow> Some (l # ls)))"

definition sql_inArray :: "('r \<Rightarrow> 'a) \<Rightarrow> 'a list \<Rightarrow> 'r \<Rightarrow> tv" where
  "sql_inArray col vs r = Some (col r \<in> set vs)"

text \<open>\<open>column >= v\<close> and \<open>column <= v\<close> on a column of the left-joined (nullable) supplier.\<close>

definition sql_ge_null :: "('r \<Rightarrow> int option) \<Rightarrow> int \<Rightarrow> 'r \<Rightarrow> tv" where
  "sql_ge_null col v r = map_option (\<lambda>x. x \<ge> v) (col r)"

definition sql_le_null :: "('r \<Rightarrow> int option) \<Rightarrow> int \<Rightarrow> 'r \<Rightarrow> tv" where
  "sql_le_null col v r = map_option (\<lambda>x. x \<le> v) (col r)"

definition aj_supplyCycleWeeks :: "association_join \<Rightarrow> int option" where
  "aj_supplyCycleWeeks j = map_option sparePartSuppliers_supplyCycleWeeks (aj_sparePartSuppliers j)"

text \<open>The conditions array of \<open>getAssociations\<close>, given the enum literals already bound.\<close>

definition association_conditions ::
  "associations_params \<Rightarrow> importance_level list \<Rightarrow> (association_join \<Rightarrow> tv) list" where
  "association_conditions p levels =
     (if truthy_num (ap_equipmentId p)
      then [sql_eq (\<lambda>j. ecsp_equipmentId (aj_ecsp j)) (the (ap_equipmentId p))] else [])
     @ (if truthy_num (ap_componentId p)
        then [sql_eq (\<lambda>j. ecsp_componentId (aj_ecsp j)) (the (ap_componentId p))] else [])
     @ (if truthy_num (ap_sparePartId p)
        then [sql_eq (\<lambda>j. ecsp_sparePartId (aj_ecsp j)) (the (ap_sparePartId p))] else [])
     @ (if ap_importanceLevel p \<noteq> None \<and> length (the (ap_importanceLevel p)) > 0
        then [sql_inArray (\<lambda>j. components_importanceLevel (aj_components j)) levels] else [])
     @ (if ap_supplyCycleRange p \<noteq> None \<and> length (the (ap_supplyCycleRange p)) = 2
        then (let min = the (ap_supplyCycleRange p) ! 0; max = the (ap_supplyCycleRange p) ! 1
              in [and_all [sql_ge_null aj_supplyCycleWeeks min, sql_le_null aj_supplyCycleWeeks max]])
        else [])
     @ (if ap_isCustom p \<noteq> None
        then [sql_eq_null (\<lambda>j. spareParts_isCustom (aj_spareParts j)) (the (ap_isCustom p))] else [])
     @ (if truthy_str (ap_keyword p)
        then [or_all
                [sql_like (\<lambda>j. spareParts_materialCode (aj_spareParts j)) (the (ap_keyword p)),
                 sql_like_null (\<lambda>j. spareParts_description (aj_spareParts j)) (the (ap_keyword p)),
                 sql_like_null (\<lambda>j. spareParts_specification (aj_spareParts j)) (the (ap_keyword p)),
                 sql_like (\<lambda>j. equipment_equipmentName (aj_equipment j)) (the (ap_keyword p)),
                 sql_like (\<lambda>j. components_componentName (aj_components j)) (the (ap_keyword p))]]
        else [])"

text \<open>\<open>orderBy(equipment.equipmentName, components.componentName)\<close>: two keys, ascending.\<close>

definition association_order :: "association_join \<Rightarrow> association_join \<Rightarrow> bool" where
  "association_order a b =
     (equipment_equipmentName (aj_equipment a) < equipment_equipmentName (aj_equipment b)
      \<or> (equipment_equipmentName (aj_equipment a) = equipment_equipmentName (aj_equipment b)
         \<and> components_componentName (aj_components a) \<le> components_componentName (aj_components b)))"

text \<open>The joined rows the query keeps, in result order, before the select list is applied.\<close>

definition associations_query :: "database \<Rightarrow> associations_params \<Rightarrow> db_error + association_join list" where
  "associations_query db params =
     (case enum_literals (case ap_importanceLevel params of None \<Rightarrow> [] | Some ls \<Rightarrow> ls) of
        None \<Rightarrow> Inl InvalidEnumValue
      | Some levels \<Rightarrow>
          (let query = association_joined db;
               conditions = association_conditions params levels;
               query = where_conditions conditions query
           in Inr (orderBy association_order query)))"

definition getAssociations :: "database \<Rightarrow> associations_params \<Rightarrow> db_error + association_row list" where
  "getAssociations db params =
     (case associations_query db params of
        Inl e \<Rightarrow> Inl e
      | Inr rows \<Rightarrow> Inr (map select_association_row rows))"

text \<open>
  \<open>GET /api/associations\<close>. The ids, the range and the flag arrive decoded as for the
  equipment listing (an id is \<open>None\<close> when absent, empty or \<open>all\<close>);
  \<open>importanceLevel\<close> is the raw string, split at commas when it is not empty.
\<close>

fun split_comma :: "string \<Rightarrow> string list" where
  "split_comma [] = [[]]"
| "split_comma (c # cs) =
     (if c = CHR '','' then [] # split_comma cs
      else (case split_comma cs of [] \<Rightarrow> [[c]] | w # ws \<Rightarrow> (c # w) # ws))"

record associations_query_string =
  aq_equipmentId :: "int option"
  aq_componentId :: "int option"
  aq_sparePartId :: "int option"
  aq_importanceLevel :: "string option"
  aq_supplyCycleRange :: "int list option"
  aq_isCustom :: "bool option"
  aq_keyword :: "string option"

definition association_params :: "associations_query_string \<Rightarrow> associations_params" where
  "association_params q =
     \<lparr>ap_equipmentId = aq_equipmentId q,
      ap_componentId = aq_componentId q,
      ap_sparePartId = aq_sparePartId q,
      ap_importanceLevel =
        (if truthy_str (aq_importanceLevel q)
         then Some (split_comma (the (aq_importanceLevel q))) else None),
      ap_supplyCycleRange = aq_supplyCycleRange q,
      ap_isCustom = aq_isCustom q,
      ap_keyword = aq_keyword q\<rparr>"

definition get_api_associations ::
  "database \<Rightarrow> associations_query_string \<Rightarrow> association_row list response" where
  "get_api_associations db q =
     (case getAssociations db (association_params q) of
        Inl e \<Rightarrow> ServerError500 e
      | Inr associations \<Rightarrow> Ok200 associations)"

section \<open>JavaScript values and row objects\<close>

text \<open>
  The handlers read properties of row objects by name, and a property that an object does
  not have reads as \<open>undefined\<close>. An object is the list of its own properties in insertion
  order. The row objects hold exactly the keys the query selects: every column of the table
  for \<open>db.select().from(table)\<close>, the keys of the select list otherwise.
\<close>

datatype jsval =
  JUndefined
  | JNull
  | JNum int
  | JRat rat
  | JStr string
  | JBool bool
  | JDate timestamp

type_synonym js_object = "(string \<times> jsval) list"

definition js_get :: "js_object \<Rightarrow> string \<Rightarrow> jsval" where
  "js_get obj k = (case map_of obj k of None \<Rightarrow> JUndefined | Some v \<Rightarrow> v)"

fun js_set :: "js_object \<Rightarrow> string \<Rightarrow> jsval \<Rightarrow> js_object" where
  "js_set [] k v = [(k, v)]"
| "js_set ((k', v') # obj) k v = (if k' = k then (k, v) # obj else (k', v') # js_set obj k v)"

definition nullable :: "('a \<Rightarrow> jsval) \<Rightarrow> 'a option \<Rightarrow> jsval" where
  "nullable f x = (case x of None \<Rightarrow> JNull | Some v \<Rightarrow> f v)"

fun busy_level_label :: "busy_level \<Rightarrow> string" where
  "busy_level_label Busy1 = ''1''"
| "busy_level_label Busy2 = ''2''"
| "busy_level_label Busy3 = ''3''"
| "busy_level_label Busy4 = ''4''"

fun importance_level_label :: "importance_level \<Rightarrow> string" where
  "importance_level_label A = ''A''"
| "importance_level_label B = ''B''"
| "importance_level_label C = ''C''"

definition base_object :: "Base \<Rightarrow> js_object" where
  "base_object b =
     [(''baseId'', JNum (bases_baseId b)),
      (''baseName'', JStr (bases_baseName b)),
      (''createdAt'', nullable JDate (bases_createdAt b)),
      (''updatedAt'', nullable JDate (bases_updatedAt b))]"

definition workshop_object :: "Workshop \<Rightarrow> js_object" where
  "workshop_object w =
     [(''workshopId'', JNum (workshops_workshopId w)),
      (''baseId'', JNum (workshops_baseId w)),
      (''workshopName'', JStr (workshops_workshopName w)),
      (''busyLevel'', JStr (busy_level_label (workshops_busyLevel w))),
      (''createdAt'', nullable JDate (workshops_createdAt w)),
      (''updatedAt'', nullable JDate (workshops_updatedAt w))]"

definition equipment_object :: "Equipment \<Rightarrow> js_object" where
  "equipment_object e =
     [(''equipmentId'', JNum (equipment_equipmentId e)),
      (''workshopId'', JNum (equipment_workshopId e)),
      (''typeId'', JNum (equipment_typeId e)),
      (''equipmentName'', JStr (equipment_equipmentName e)),
      (''createdAt'', nullable JDate (equipment_createdAt e)),
      (''updatedAt'', nullable JDate (equipment_updatedAt e))]"

definition equipment_row_object :: "equipment_row \<Rightarrow> js_object" where
  "equipment_row_object r =
     [(''equipmentId'', JNum (er_equipmentId r)),
      (''workshopId'', JNum (er_workshopId r)),
      (''typeId'', JNum (er_typeId r)),
      (''equipmentName'', JStr (er_equipmentName r)),
      (''createdAt'', nullable JDate (er_createdAt r)),
      (''updatedAt'', nullable JDate (er_updatedAt r)),
      (''workshopName'', JStr (er_workshopName r)),
      (''typeName'', JStr (er_typeName r)),
      (''baseId'', JNum (er_baseId r)),
      (''baseName'', JStr (er_baseName r))]"

definition component_object :: "Component \<Rightarrow> js_object" where
  "component_object c =
     [(''componentId'', JNum (components_componentId c)),
      (''typeId'', JNum (components_typeId c)),
      (''componentName'', JStr (components_componentName c)),
      (''importanceLevel'', JStr (importance_level_label (components_importanceLevel c))),
      (''failureRate'', nullable JRat (components_failureRate c)),
      (''lifecycleYears'', nullable JNum (components_lifecycleYears c)),
      (''createdAt'', nullable JDate (components_createdAt c)),
      (''updatedAt'', nullable JDate (components_updatedAt c))]"

definition sparePart_object :: "SparePart \<Rightarrow> js_object" where
  "sparePart_object s =
     [(''sparePartId'', JNum (spareParts_sparePartId s)),
      (''materialCode'', JStr (spareParts_materialCode s)),
      (''manufacturer'', JStr (spareParts_manufacturer s)),
      (''manufacturerMaterialCode'', nullable JStr (spareParts_manufacturerMaterialCode s)),
      (''specification'', nullable JStr (spareParts_specification s)),
      (''description'', nullable JStr (spareParts_description s)),
      (''isCustom'', nullable JBool (spareParts_isCustom s)),
      (''createdAt'', nullable JDate (spareParts_createdAt s)),
      (''updatedAt'', nullable JDate (spareParts_updatedAt s))]"

definition association_row_object :: "association_row \<Rightarrow> js_object" where
  "association_row_object r =
     [(''id'', JNum (ar_id r)),
      (''equipmentId'', JNum (ar_equipmentId r)),
      (''componentId'', JNum (ar_componentId r)),
      (''sparePartId'', JNum (ar_sparePartId r)),
      (''quantity'', nullable JNum (ar_quantity r)),
      (''createdAt'', nullable JDate (ar_createdAt r)),
      (''updatedAt'', nullable JDate (ar_updatedAt r)),
      (''equipmentName'', JStr (ar_equipmentName r)),
      (''componentName'', JStr (ar_componentName r)),
      (''importanceLevel'', JStr (importance_level_label (ar_importanceLevel r))),
      (''materialCode'', JStr (ar_materialCode r)),
      (''sparePartName'', nullable JStr (ar_sparePartName r)),
      (''specification'', nullable JStr (ar_specification r)),
      (''manufacturer'', JStr (ar_manufacturer r))]"

section \<open>Lookups by id\<close>

definition getEquipment :: "database \<Rightarrow> int \<Rightarrow> Equipment option" where
  "getEquipment db i = first_row (sql_where (sql_eq equipment_equipmentId i) (equipment db))"

definition getComponent :: "database \<Rightarrow> int \<Rightarrow> Component option" where
  "getComponent db i = first_row (sql_where (sql_eq components_componentId i) (components db))"

definition getSparePart :: "database \<Rightarrow> int \<Rightarrow> SparePart option" where
  "getSparePart db i = first_row (sql_where (sql_eq spareParts_sparePartId i) (spareParts db))"

definition getSparePartByMaterialCode :: "database \<Rightarrow> string \<Rightarrow> SparePart option" where
  "getSparePartByMaterialCode db materialCode =
     first_row (sql_where (sql_eq spareParts_materialCode materialCode) (spareParts db))"

section \<open>Hierarchy endpoints\<close>

text \<open>
  The node types are the labels the handlers write: base, workshop, equipment, component
  and spare part. A leaf that the handler builds without a \<open>children\<close> property has the
  empty list of children.
\<close>

datatype node_type = BaseNode | WorkshopNode | EquipmentNode | ComponentNode | SparePartNode

datatype tree_node =
  TreeNode (node_id: jsval) (node_name: jsval) (node_type: node_type) (node_data: js_object)
    (node_children: "tree_node list")

text \<open>
  \<open>componentsMap\<close>: a \<open>Map\<close> from component id to the component and its list of
  (spare part, association) pairs, in insertion order.
\<close>

type_synonym components_map = "(int \<times> (Component \<times> (SparePart \<times> association_row) list)) list"

definition map_has :: "components_map \<Rightarrow> int \<Rightarrow> bool" where
  "map_has m k = (map_of m k \<noteq> None)"

fun map_push :: "components_map \<Rightarrow> int \<Rightarrow> SparePart \<times> association_row \<Rightarrow> components_map" where
  "map_push [] k x = []"
| "map_push ((k', (c, sps)) # m) k x =
     (if k' = k then (k', (c, sps @ [x])) # m else (k', (c, sps)) # map_push m k x)"

text \<open>One iteration of \<open>for (const assoc of associations)\<close>.\<close>

definition group_step :: "database \<Rightarrow> components_map \<Rightarrow> association_row \<Rightarrow> components_map" where
  "group_step db componentsMap assoc =
     (let componentsMap =
            (if \<not> map_has componentsMap (ar_componentId assoc) then
               (case getComponent db (ar_componentId assoc) of
                  None \<Rightarrow> componentsMap
                | Some component \<Rightarrow> componentsMap @ [(ar_componentId assoc, (component, []))])
             else componentsMap)
      in if map_has componentsMap (ar_componentId assoc) then
           (case getSparePart db (ar_sparePartId assoc) of
              None \<Rightarrow> componentsMap
            | Some sparePart \<Rightarrow> map_push componentsMap (ar_componentId assoc) (sparePart, assoc))
         else componentsMap)"

definition group_associations :: "database \<Rightarrow> association_row list \<Rightarrow> components_map" where
  "group_associations db associations = foldl (group_step db) [] associations"

definition sparePart_node :: "SparePart \<times> association_row \<Rightarrow> tree_node" where
  "sparePart_node x =
     (let sparePart = sparePart_object (fst x); association = association_row_object (snd x)
      in TreeNode (js_get sparePart ''sparePartId'') (js_get sparePart ''sparePartName'') SparePartNode
           (js_set (js_set (js_set sparePart
              ''importanceLevel'' (js_get association ''importanceLevel''))
              ''supplyCycle'' (js_get association ''supplyCycle''))
              ''quantity'' (js_get association ''quantity''))
           [])"

definition component_node ::
  "int \<times> (Component \<times> (SparePart \<times> association_row) list) \<Rightarrow> tree_node" where
  "component_node entry =
     (let componentId = fst entry; component = component_object (fst (snd entry));
          spareParts = snd (snd entry)
      in TreeNode (JNum componentId) (js_get component ''componentName'') ComponentNode component
           (map sparePart_node spareParts))"

definition no_association_params :: associations_params where
  "no_association_params =
     \<lparr>ap_equipmentId = None, ap_componentId = None, ap_sparePartId = None,
      ap_importanceLevel = None, ap_supplyCycleRange = None, ap_isCustom = None,
      ap_keyword = None\<rparr>"

text \<open>\<open>GET /api/hierarchy/equipment/:id\<close>\<close>

definition get_api_hierarchy_equipment :: "database \<Rightarrow> int \<Rightarrow> tree_node response" where
  "get_api_hierarchy_equipment db equipmentId =
     (case getEquipment db equipmentId of
        None \<Rightarrow> NotFound404 ''Equipment not found''
      | Some e \<Rightarrow>
          (case getAssociations db (no_association_params\<lparr>ap_equipmentId := Some equipmentId\<rparr>) of
             Inl err \<Rightarrow> ServerError500 err
           | Inr associations \<Rightarrow>
               (let componentsMap = group_associations db associations
                in Ok200 (TreeNode (js_get (equipment_object e) ''equipmentId'')
                            (js_get (equipment_object e) ''equipmentName'') EquipmentNode
                            (equipment_object e)
                            (map component_node componentsMap)))))"

definition no_equipments_params :: equipments_params where
  "no_equipments_params =
     \<lparr>ep_workshopId = None, ep_typeId = None, ep_baseId = None, ep_search = None,
      ep_page = None, ep_limit = None, ep_sortBy = None, ep_sortOrder = None\<rparr>"

definition equipment_leaf :: "equipment_row \<Rightarrow> tree_node" where
  "equipment_leaf r =
     TreeNode (js_get (equipment_row_object r) ''equipmentId'')
       (js_get (equipment_row_object r) ''equipmentName'') EquipmentNode (equipment_row_object r) []"

text \<open>
  The callback of \<open>workshops.map\<close> in \<open>GET /api/hierarchy/base/:id\<close>, and \<open>Promise.all\<close>
  over it: the first failing query fails the whole request.
\<close>

definition workshop_node :: "database \<Rightarrow> Workshop \<Rightarrow> db_error + tree_node" where
  "workshop_node db workshop =
     (case getEquipments db (no_equipments_params\<lparr>ep_workshopId := Some (workshops_workshopId workshop),
                                                  ep_limit := Some 100\<rparr>) of
        Inl e \<Rightarrow> Inl e
      | Inr equipmentResponse \<Rightarrow>
          Inr (TreeNode (js_get (workshop_object workshop) ''workshopId'')
                 (js_get (workshop_object workshop) ''workshopName'') WorkshopNode
                 (workshop_object workshop)
                 (map equipment_leaf (fst equipmentResponse))))"

fun promise_all :: "('e + 'a) list \<Rightarrow> 'e + 'a list" where
  "promise_all [] = Inr []"
| "promise_all (Inl e # _) = Inl e"
| "promise_all (Inr x # rest) = (case promise_all rest of Inl e \<Rightarrow> Inl e | Inr xs \<Rightarrow> Inr (x # xs))"

text \<open>
  \<open>GET /api/hierarchy/base/:id\<close>: the first of the two handlers registered for the
  path, the one that answers the request.
\<close>

definition get_api_hierarchy_base :: "database \<Rightarrow> int \<Rightarrow> tree_node response" where
  "get_api_hierarchy_base db baseId =
     (case getBase db baseId of
        None \<Rightarrow> NotFound404 ''Base not found''
      | Some base \<Rightarrow>
          (case promise_all (map (workshop_node db) (getWorkshops db (Some baseId))) of
             Inl e \<Rightarrow> ServerError500 e
           | Inr children \<Rightarrow>
               Ok200 (TreeNode (js_get (base_object base) ''baseId'')
                        (js_get (base_object base) ''baseName'') BaseNode (base_object base)
                        children)))"

section \<open>Creating a spare part\<close>

text \<open>
  \<open>insertSparePartSchema\<close> is the insert schema derived from the table without the id and
  the two timestamps: \<open>materialCode\<close> and \<open>manufacturer\<close> are required strings, the other
  four columns may be absent, \<open>null\<close> or a value of the column's type. Unknown keys are
  dropped. \<open>None\<close> is the validation error.
\<close>

record InsertSparePart =
  isp_materialCode :: string
  isp_manufacturer :: string
  isp_manufacturerMaterialCode :: "string option option"
  isp_specification :: "string option option"
  isp_description :: "string option option"
  isp_isCustom :: "bool option option"

fun optional_string :: "jsval \<Rightarrow> string option option option" where
  "optional_string JUndefined = Some None"
| "optional_string JNull = Some (Some None)"
| "optional_string (JStr s) = Some (Some (Some s))"
| "optional_string _ = None"

fun optional_bool :: "jsval \<Rightarrow> bool option option option" where
  "optional_bool JUndefined = Some None"
| "optional_bool JNull = Some (Some None)"
| "optional_bool (JBool b) = Some (Some (Some b))"
| "optional_bool _ = None"

definition insertSparePartSchema_parse :: "js_object \<Rightarrow> InsertSparePart option" where
  "insertSparePartSchema_parse body =
     (case (js_get body ''materialCode'', js_get body ''manufacturer'',
            optional_string (js_get body ''manufacturerMaterialCode''),
            optional_string (js_get body ''specification''),
            optional_string (js_get body ''description''),
            optional_bool (js_get body ''isCustom'')) of
        (JStr mc, JStr mf, Some mmc, Some sp, Some ds, Some ic) \<Rightarrow>
          Some \<lparr>isp_materialCode = mc, isp_manufacturer = mf,
                isp_manufacturerMaterialCode = mmc, isp_specification = sp,
                isp_description = ds, isp_isCustom = ic\<rparr>
      | _ \<Rightarrow> None)"

text \<open>
  \<open>db.insert(spareParts).values(sparePart).returning()\<close> at time \<open>now\<close>: an absent value
  takes the column default (\<open>false\<close> for \<open>is_custom\<close>, NULL for the other three), both
  timestamps default to \<open>now\<close> and the id is the next value of the serial's sequence.
  \<open>spareParts_seq\<close> holds that next value. The column is a 32-bit integer, so a sequence
  past \<open>int4_max\<close> is exhausted and the insert fails. A value once drawn stays drawn, also
  when the insert fails afterwards. The primary key rejects an id that is already stored
  and the unique constraint on \<open>material_code\<close> rejects a code that is already stored.
  The result is the database after the statement and either the error or the new row.
\<close>

datatype insert_error =
  SequenceExhausted
  | PrimaryKeyViolation
  | UniqueViolation

definition int4_max :: int where
  "int4_max = 2147483647"

definition or_default :: "'a option \<Rightarrow> 'a option option \<Rightarrow> 'a option" where
  "or_default d v = (case v of None \<Rightarrow> d | Some x \<Rightarrow> x)"

definition createSparePart ::
  "database \<Rightarrow> timestamp \<Rightarrow> InsertSparePart \<Rightarrow> database \<times> (insert_error + SparePart)" where
  "createSparePart db now sparePart =
     (if int4_max < spareParts_seq db then (db, Inl SequenceExhausted)
      else
        (let newSparePart =
               \<lparr>spareParts_sparePartId = spareParts_seq db,
                spareParts_materialCode = isp_materialCode sparePart,
                spareParts_manufacturer = isp_manufacturer sparePart,
                spareParts_manufacturerMaterialCode = or_default None (isp_manufacturerMaterialCode sparePart),
                spareParts_specification = or_default None (isp_specification sparePart),
                spareParts_description = or_default None (isp_description sparePart),
                spareParts_isCustom = or_default (Some False) (isp_isCustom sparePart),
                spareParts_createdAt = Some now,
                spareParts_updatedAt = Some now\<rparr>;
             drawn = db\<lparr>spareParts_seq := spareParts_seq db + 1\<rparr>
         in if \<exists>s \<in> set (spareParts db). spareParts_sparePartId s = spareParts_sparePartId newSparePart
            then (drawn, Inl PrimaryKeyViolation)
            else if \<exists>s \<in> set (spareParts db). spareParts_materialCode s = spareParts_materialCode newSparePart
            then (drawn, Inl UniqueViolation)
            else (drawn\<lparr>spareParts := spareParts db @ [newSparePart]\<rparr>, Inr newSparePart)))"

datatype post_response =
  Created SparePart
  | ValidationError
  | MaterialCodeExists
  | InternalServerError insert_error


text \<open>
  \<open>POST /api/spare-parts\<close> at time \<open>now\<close>: the new database and the response. An error
  thrown by the insert is caught and answered with 500.
\<close>

definition post_api_spare_parts ::
  "database \<Rightarrow> timestamp \<Rightarrow> js_object \<Rightarrow> database \<times> post_response" where
  "post_api_spare_parts db now body =
     (case insertSparePartSchema_parse body of
        None \<Rightarrow> (db, ValidationError)
      | Some sparePartData \<Rightarrow>
          (case getSparePartByMaterialCode db (isp_materialCode sparePartData) of
             Some existing \<Rightarrow> (db, MaterialCodeExists)
           | None \<Rightarrow>
               (case createSparePart db now sparePartData of
                  (db', Inl e) \<Rightarrow> (db', InternalServerError e)
                | (db', Inr newSparePart) \<Rightarrow> (db', Created newSparePart))))"

section \<open>A small plant\<close>

text \<open>
  One base with two workshops and three machines; machine 1 has two components, each tied
  to two spare parts. Parts 1 and 2 have one supplier each.
\<close>

definition db_plant :: database where
  "db_plant =
     \<lparr>bases = [\<lparr>bases_baseId = 1, bases_baseName = ''North'',
                 bases_createdAt = Some 10, bases_updatedAt = Some 10\<rparr>],
      workshops =
        [\<lparr>workshops_workshopId = 1, workshops_baseId = 1, workshops_workshopName = ''Press'',
          workshops_busyLevel = Busy2, workshops_createdAt = Some 11, workshops_updatedAt = Some 11\<rparr>,
         \<lparr>workshops_workshopId = 2, workshops_baseId = 1, workshops_workshopName = ''Assembly'',
          workshops_busyLevel = Busy1, workshops_createdAt = Some 12, workshops_updatedAt = Some 12\<rparr>],
      equipmentTypes =
        [\<lparr>equipmentTypes_typeId = 1, equipmentTypes_typeName = ''Lathe'',
          equipmentTypes_lifecycleYears = Some 15,
          equipmentTypes_createdAt = Some 13, equipmentTypes_updatedAt = Some 13\<rparr>],
      equipment =
        [\<lparr>equipment_equipmentId = 1, equipment_workshopId = 1, equipment_typeId = 1,
          equipment_equipmentName = ''Lathe B'',
          equipment_createdAt = Some 20, equipment_updatedAt = Some 20\<rparr>,
         \<lparr>equipment_equipmentId = 2, equipment_workshopId = 1, equipment_typeId = 1,
          equipment_equipmentName = ''Lathe A'',
          equipment_createdAt = Some 21, equipment_updatedAt = Some 21\<rparr>,
         \<lparr>equipment_equipmentId = 3, equipment_workshopId = 2, equipment_typeId = 1,
          equipment_equipmentName = ''Mill'',
          equipment_createdAt = None, equipment_updatedAt = None\<rparr>],
      components =
        [\<lparr>components_componentId = 1, components_typeId = 1, components_componentName = ''Spindle'',
          components_importanceLevel = A, components_failureRate = None,
          components_lifecycleYears = Some 5,
          components_createdAt = Some 30, components_updatedAt = Some 30\<rparr>,
         \<lparr>components_componentId = 2, components_typeId = 1, components_componentName = ''Chuck'',
          components_importanceLevel = C, components_failureRate = None,
          components_lifecycleYears = None,
          components_createdAt = Some 31, components_updatedAt = Some 31\<rparr>],
      spareParts =
        [\<lparr>spareParts_sparePartId = 1, spareParts_materialCode = ''M-001'',
          spareParts_manufacturer = ''Acme'', spareParts_manufacturerMaterialCode = None,
          spareParts_specification = Some ''6204'', spareParts_description = Some ''bearing'',
          spareParts_isCustom = Some False,
          spareParts_createdAt = Some 40, spareParts_updatedAt = Some 40\<rparr>,
         \<lparr>spareParts_sparePartId = 2, spareParts_materialCode = ''M-002'',
          spareParts_manufacturer = ''Acme'', spareParts_manufacturerMaterialCode = None,
          spareParts_specification = None, spareParts_description = Some ''belt'',
          spareParts_isCustom = Some False,
          spareParts_createdAt = Some 41, spareParts_updatedAt = Some 41\<rparr>,
         \<lparr>spareParts_sparePartId = 3, spareParts_materialCode = ''M-003'',
          spareParts_manufacturer = ''Bolt'', spareParts_manufacturerMaterialCode = None,
          spareParts_specification = None, spareParts_description = None,
          spareParts_isCustom = Some True,
          spareParts_createdAt = Some 42, spareParts_updatedAt = Some 42\<rparr>,
         \<lparr>spareParts_sparePartId = 4, spareParts_materialCode = ''M-004'',
          spareParts_manufacturer = ''Bolt'', spareParts_manufacturerMaterialCode = None,
          spareParts_specification = Some ''jaw'', spareParts_description = None,
          spareParts_isCustom = None,
          spareParts_createdAt = Some 43, spareParts_updatedAt = Some 43\<rparr>],
      sparePartSuppliers =
        [\<lparr>sparePartSuppliers_supplierId = 1, sparePartSuppliers_sparePartId = 1,
          sparePartSuppliers_supplierName = ''Rapid'', sparePartSuppliers_supplyCycleWeeks = 4,
          sparePartSuppliers_createdAt = Some 50, sparePartSuppliers_updatedAt = Some 50\<rparr>,
         \<lparr>sparePartSuppliers_supplierId = 2, sparePartSuppliers_sparePartId = 2,
          sparePartSuppliers_supplierName = ''Slow'', sparePartSuppliers_supplyCycleWeeks = 8,
          sparePartSuppliers_createdAt = Some 51, sparePartSuppliers_updatedAt = Some 51\<rparr>],
      equipmentComponentSpareParts =
        [\<lparr>ecsp_id = 1, ecsp_equipmentId = 1, ecsp_componentId = 1, ecsp_sparePartId = 1,
          ecsp_quantity = Some 2, ecsp_createdAt = Some 60, ecsp_updatedAt = Some 60\<rparr>,
         \<lparr>ecsp_id = 2, ecsp_equipmentId = 1, ecsp_componentId = 1, ecsp_sparePartId = 2,
          ecsp_quantity = Some 1, ecsp_createdAt = Some 61, ecsp_updatedAt = Some 61\<rparr>,
         \<lparr>ecsp_id = 3, ecsp_equipmentId = 1, ecsp_componentId = 2, ecsp_sparePartId = 3,
          ecsp_quantity = None, ecsp_createdAt = Some 62, ecsp_updatedAt = Some 62\<rparr>,
         \<lparr>ecsp_id = 4, ecsp_equipmentId = 1, ecsp_componentId = 2, ecsp_sparePartId = 4,
          ecsp_quantity = Some 5, ecsp_createdAt = Some 63, ecsp_updatedAt = Some 63\<rparr>],
      spareParts_seq = 5\<rparr>"

text \<open>The same plant after a second supplier of part 1 has been registered.\<close>

definition db_second_supplier :: database where
  "db_second_supplier =
     db_plant\<lparr>sparePartSuppliers := sparePartSuppliers db_plant @
        [\<lparr>sparePartSuppliers_supplierId = 3, sparePartSuppliers_sparePartId = 1,
          sparePartSuppliers_supplierName = ''Spare'', sparePartSuppliers_supplyCycleWeeks = 3,
          sparePartSuppliers_createdAt = Some 52, sparePartSuppliers_updatedAt = Some 52\<rparr>]\<rparr>"

text \<open>The plant with 101 machines in workshop 1 (Press) and none in workshop 2.\<close>

definition db_crowded :: database where
  "db_crowded =
     db_plant\<lparr>equipment :=
        map (\<lambda>n. \<lparr>equipment_equipmentId = int n, equipment_workshopId = 1, equipment_typeId = 1,
                   equipment_equipmentName = ''Press'',
                   equipment_createdAt = None, equipment_updatedAt = None\<rparr>) [1..<102]\<rparr>"

definition db_empty :: database where
  "db_empty = \<lparr>bases = [], workshops = [], equipmentTypes = [], equipment = [], components = [],
     spareParts = [], sparePartSuppliers = [], equipmentComponentSpareParts = [],
     spareParts_seq = 1\<rparr>"


section \<open>Properties stated about the model\<close>

subsection \<open>Orders and the equipment listing\<close>

text \<open>
  A comparison that sorting can work with: any two rows are comparable and the comparison
  is transitive.
\<close>

definition total_preorder :: "('r \<Rightarrow> 'r \<Rightarrow> bool) \<Rightarrow> bool" where
  "total_preorder le \<longleftrightarrow> (\<forall>a b. le a b \<or> le b a) \<and> (\<forall>a b c. le a b \<longrightarrow> le b c \<longrightarrow> le a c)"

text \<open>
  The filters of a listing request, read on a returned row. An id filter that carries
  \<open>0\<close> counts as not supplied, and the search text is matched by \<open>LIKE '%text%'\<close>.
\<close>

definition equipment_matches :: "equipment_query \<Rightarrow> equipment_row \<Rightarrow> bool" where
  "equipment_matches q r \<longleftrightarrow>
     (case eq_workshopId q of None \<Rightarrow> True | Some w \<Rightarrow> w = 0 \<or> er_workshopId r = w)
   \<and> (case eq_typeId q of None \<Rightarrow> True | Some t \<Rightarrow> t = 0 \<or> er_typeId r = t)
   \<and> (case eq_baseId q of None \<Rightarrow> True | Some b \<Rightarrow> b = 0 \<or> er_baseId r = b)
   \<and> (case eq_search q of None \<Rightarrow> True
       | Some s \<Rightarrow> s = [] \<or> like_match (''%'' @ s @ ''%'') (er_equipmentName r))"

definition matching_rows :: "database \<Rightarrow> equipment_query \<Rightarrow> equipment_row list" where
  "matching_rows db q = filter (equipment_matches q) (map select_equipment_row (equipment_joined db))"

text \<open>
  The order of two returned rows by a sort field, and by a sort field in a direction.
\<close>

definition field_le :: "string \<Rightarrow> equipment_row \<Rightarrow> equipment_row \<Rightarrow> bool" where
  "field_le f a b =
     (if f = ''equipmentId'' then er_equipmentId a \<le> er_equipmentId b
      else if f = ''equipmentName'' then er_equipmentName a \<le> er_equipmentName b
      else if f = ''workshopName'' then er_workshopName a \<le> er_workshopName b
      else if f = ''typeName'' then er_typeName a \<le> er_typeName b
      else if f = ''baseName'' then er_baseName a \<le> er_baseName b
      else if f = ''createdAt'' then null_le (er_createdAt a) (er_createdAt b)
      else True)"

definition requested_order :: "string \<Rightarrow> string \<Rightarrow> equipment_row \<Rightarrow> equipment_row \<Rightarrow> bool" where
  "requested_order f ord a b = (if ord = ''asc'' then field_le f a b else field_le f b a)"

definition sort_fields :: "string set" where
  "sort_fields = {''equipmentId'', ''equipmentName'', ''workshopName'', ''typeName'', ''baseName'', ''createdAt''}"

subsection \<open>Keywords\<close>

text \<open>
  A keyword is plain when it holds none of the characters \<open>LIKE\<close> gives a meaning to.
  \<open>occurs_in k s\<close>: \<open>k\<close> is a contiguous part of \<open>s\<close>; a NULL column holds no text.
\<close>

definition plain :: "string \<Rightarrow> bool" where
  "plain k \<longleftrightarrow> CHR ''%'' \<notin> set k \<and> CHR ''_'' \<notin> set k \<and> CHR 0x5C \<notin> set k"

fun occurs_in :: "string \<Rightarrow> string \<Rightarrow> bool" where
  "occurs_in k [] = (k = [])"
| "occurs_in k (c # cs) = (take (length k) (c # cs) = k \<or> occurs_in k cs)"

definition occurs_in_null :: "string \<Rightarrow> string option \<Rightarrow> bool" where
  "occurs_in_null k s = (case s of None \<Rightarrow> False | Some v \<Rightarrow> occurs_in k v)"

definition keyword_occurs :: "string \<Rightarrow> association_join \<Rightarrow> bool" where
  "keyword_occurs k j \<longleftrightarrow>
     occurs_in k (spareParts_materialCode (aj_spareParts j))
   \<or> occurs_in_null k (spareParts_description (aj_spareParts j))
   \<or> occurs_in_null k (spareParts_specification (aj_spareParts j))
   \<or> occurs_in k (equipment_equipmentName (aj_equipment j))
   \<or> occurs_in k (components_componentName (aj_components j))"

text \<open>The same, read on a returned row (\<open>sparePartName\<close> is the description).\<close>

definition keyword_in_row :: "string \<Rightarrow> association_row \<Rightarrow> bool" where
  "keyword_in_row k r \<longleftrightarrow>
     occurs_in k (ar_materialCode r)
   \<or> occurs_in_null k (ar_sparePartName r)
   \<or> occurs_in_null k (ar_specification r)
   \<or> occurs_in k (ar_equipmentName r)
   \<or> occurs_in k (ar_componentName r)"

subsection \<open>Workshops and their machines\<close>

definition workshop_equipment :: "database \<Rightarrow> int \<Rightarrow> equipment_join list" where
  "workshop_equipment db wid =
     filter (\<lambda>j. equipment_workshopId (ej_equipment j) = wid) (equipment_joined db)"

subsection \<open>Associations, suppliers and the grouping loop\<close>

text \<open>
  The primary keys of the four joined tables are unique and every association row
  references an existing machine, component and spare part.
\<close>

definition schema_constraints :: "database \<Rightarrow> bool" where
  "schema_constraints db \<longleftrightarrow>
     distinct (map ecsp_id (equipmentComponentSpareParts db))
   \<and> distinct (map equipment_equipmentId (equipment db))
   \<and> distinct (map components_componentId (components db))
   \<and> distinct (map spareParts_sparePartId (spareParts db))
   \<and> list_all (\<lambda>a. ecsp_equipmentId a \<in> equipment_equipmentId ` set (equipment db)
                  \<and> ecsp_componentId a \<in> components_componentId ` set (components db)
                  \<and> ecsp_sparePartId a \<in> spareParts_sparePartId ` set (spareParts db))
        (equipmentComponentSpareParts db)"

definition suppliers_of :: "database \<Rightarrow> int \<Rightarrow> SparePartSupplier list" where
  "suppliers_of db sid =
     filter (\<lambda>u. sparePartSuppliers_sparePartId u = sid) (sparePartSuppliers db)"

definition associations_of :: "database \<Rightarrow> int \<Rightarrow> EquipmentComponentSparePart list" where
  "associations_of db e = filter (\<lambda>a. ecsp_equipmentId a = e) (equipmentComponentSpareParts db)"

text \<open>
  What the joins make of one association row \<open>a\<close>: the row with its machine, component
  and part, once per supplier of the part (once with NULL when the part has none).
\<close>

definition joined_base ::
  "database \<Rightarrow> EquipmentComponentSparePart \<Rightarrow>
   ((EquipmentComponentSparePart \<times> Equipment) \<times> Component) \<times> SparePart" where
  "joined_base db a =
     (((a, the (getEquipment db (ecsp_equipmentId a))),
       the (getComponent db (ecsp_componentId a))),
      the (getSparePart db (ecsp_sparePartId a)))"

definition joined_rows_of :: "database \<Rightarrow> EquipmentComponentSparePart \<Rightarrow> association_join list" where
  "joined_rows_of db a =
     (case suppliers_of db (ecsp_sparePartId a) of
        [] \<Rightarrow> [(joined_base db a, None)]
      | u # us \<Rightarrow> map (\<lambda>y. (joined_base db a, Some y)) (u # us))"

definition assoc_row :: "database \<Rightarrow> EquipmentComponentSparePart \<Rightarrow> association_row" where
  "assoc_row db a = select_association_row (joined_base db a, None)"

definition copies :: "database \<Rightarrow> EquipmentComponentSparePart \<Rightarrow> nat" where
  "copies db a = (case suppliers_of db (ecsp_sparePartId a) of [] \<Rightarrow> 1 | u # us \<Rightarrow> length (u # us))"

definition equipment_rows_model :: "database \<Rightarrow> int \<Rightarrow> association_row list" where
  "equipment_rows_model db e =
     concat (map (\<lambda>x. replicate (copies db x) (assoc_row db x)) (associations_of db e))"

text \<open>
  The state of \<open>componentsMap\<close> after the loop has read \<open>rows\<close>: one entry per component
  id met, holding the component and the rows of that component in the order read.
\<close>

definition pairs_for :: "database \<Rightarrow> int \<Rightarrow> association_row list \<Rightarrow> (SparePart \<times> association_row) list" where
  "pairs_for db c rows =
     map (\<lambda>r. (the (getSparePart db (ar_sparePartId r)), r)) (filter (\<lambda>r. ar_componentId r = c) rows)"

definition grouped :: "database \<Rightarrow> association_row list \<Rightarrow> components_map \<Rightarrow> bool" where
  "grouped db rows m \<longleftrightarrow>
     distinct (map fst m)
   \<and> (\<forall>c. map_of m c =
          (if c \<in> ar_componentId ` set rows
           then Some (the (getComponent db c), pairs_for db c rows) else None))"

text \<open>
  A machine with exactly two components, each with exactly two association rows that
  name two distinct spare parts; a machine whose spare parts have at most one supplier
  each; and a spare-part node that shows an association row under a component node.
\<close>

definition two_components_two_parts :: "database \<Rightarrow> int \<Rightarrow> bool" where
  "two_components_two_parts db e \<longleftrightarrow>
     length (remdups (map ecsp_componentId (associations_of db e))) = 2
   \<and> list_all
       (\<lambda>c. length (filter (\<lambda>a. ecsp_componentId a = c) (associations_of db e)) = 2
           \<and> distinct (map ecsp_sparePartId
                 (filter (\<lambda>a. ecsp_componentId a = c) (associations_of db e))))
       (remdups (map ecsp_componentId (associations_of db e)))"

definition single_sourced :: "database \<Rightarrow> int \<Rightarrow> bool" where
  "single_sourced db e \<longleftrightarrow>
     list_all (\<lambda>a. length (suppliers_of db (ecsp_sparePartId a)) \<le> 1) (associations_of db e)"

definition shows_association :: "database \<Rightarrow> EquipmentComponentSparePart \<Rightarrow> tree_node \<Rightarrow> tree_node \<Rightarrow> bool" where
  "shows_association db a cn sn \<longleftrightarrow>
     node_id cn = JNum (ecsp_componentId a)
   \<and> node_id sn = JNum (ecsp_sparePartId a)
   \<and> js_get (node_data sn) ''quantity'' = nullable JNum (ecsp_quantity a)
   \<and> js_get (node_data sn) ''importanceLevel'' =
       JStr (importance_level_label
               (components_importanceLevel (the (getComponent db (ecsp_componentId a)))))"

subsection \<open>The serial of the spare parts\<close>


definition ids_drawn :: "database \<Rightarrow> bool" where
  "ids_drawn db \<longleftrightarrow> list_all (\<lambda>s. spareParts_sparePartId s < spareParts_seq db) (spareParts db)"

subsection \<open>An id filter that is zero or absent\<close>


subsection \<open>Reading a response\<close>

definition response_body :: "'a response \<Rightarrow> 'a option" where
  "response_body r = (case r of Ok200 x \<Rightarrow> Some x | Created201 x \<Rightarrow> Some x | _ \<Rightarrow> None)"

definition children_counts :: "tree_node response \<Rightarrow> nat list" where
  "children_counts r =
     (case r of Ok200 t \<Rightarrow> map (\<lambda>cn. length (node_children cn)) (node_children t) | _ \<Rightarrow> [])"

subsection \<open>Requests used as examples\<close>

definition no_associations_query :: associations_query_string where
  "no_associations_query =
     \<lparr>aq_equipmentId = None, aq_componentId = None, aq_sparePartId = None,
      aq_importanceLevel = None, aq_supplyCycleRange = None, aq_isCustom = None,
      aq_keyword = None\<rparr>"

definition listing_page_two :: equipment_query where
  "listing_page_two =
     \<lparr>eq_workshopId = None, eq_typeId = None, eq_baseId = Some 1, eq_search = None,
      eq_page = Some 2, eq_limit = Some 2, eq_sortBy = Some ''equipmentName'',
      eq_sortOrder = Some ''desc''\<rparr>"

definition query_A_B_2_6 :: associations_query_string where
  "query_A_B_2_6 =
     \<lparr>aq_equipmentId = None, aq_componentId = None, aq_sparePartId = None,
      aq_importanceLevel = Some ''A,B'', aq_supplyCycleRange = Some [2, 6],
      aq_isCustom = None, aq_keyword = None\<rparr>"



section \<open>Sorting\<close>

lemma mset_insort_by: "mset (insort_by le x xs) = add_mset x (mset xs)"
  by (induction xs) auto

lemma mset_orderBy: "mset (orderBy le xs) = mset xs"
  unfolding orderBy_def by (induction xs) (auto simp: mset_insort_by)

lemma set_orderBy: "set (orderBy le xs) = set xs"
  using mset_orderBy [of le xs] by (metis set_mset_mset)

lemma set_insort_by: "set (insort_by le x xs) = insert x (set xs)"
  using mset_insort_by [of le x xs] by (metis set_mset_mset set_mset_add_mset_insert)

lemma sorted_wrt_insort_by:
  assumes "total_preorder le" "sorted_wrt le xs"
  shows "sorted_wrt le (insort_by le x xs)"
  using assms(2)
proof (induction xs)
  case Nil
  then show ?case by simp
next
  case (Cons y ys)
  show ?case
  proof (cases "le x y")
    case True
    have "\<forall>z \<in> set ys. le x z"
      using True Cons.prems assms(1) unfolding total_preorder_def by auto
    with True Cons.prems show ?thesis by simp
  next
    case False
    then have "le y x" using assms(1) unfolding total_preorder_def by blast
    with False Cons show ?thesis by (auto simp: set_insort_by)
  qed
qed

lemma sorted_wrt_orderBy: "total_preorder le \<Longrightarrow> sorted_wrt le (orderBy le xs)"
  unfolding orderBy_def by (induction xs) (auto intro: sorted_wrt_insort_by)

lemma null_le_total: "null_le a b \<or> null_le b a"
  by (cases a; cases b) auto

lemma null_le_trans: "null_le a b \<Longrightarrow> null_le b c \<Longrightarrow> null_le a c"
  by (cases a; cases b; cases c) auto

lemma total_preorder_key: "total_preorder (\<lambda>a b. (k a :: 'k::linorder) \<le> k b)"
  unfolding total_preorder_def by auto

lemma total_preorder_null_key: "total_preorder (\<lambda>a b. null_le (k a) (k b))"
  unfolding total_preorder_def using null_le_total null_le_trans by blast

lemma total_preorder_field_le: "total_preorder (field_le f)"
proof -
  consider "f = ''equipmentId''" | "f = ''equipmentName''" | "f = ''workshopName''"
    | "f = ''typeName''" | "f = ''baseName''" | "f = ''createdAt''" | "f \<notin> sort_fields"
    by (auto simp: sort_fields_def)
  then show ?thesis
  proof cases
    case 1
    then have "field_le f = (\<lambda>a b. er_equipmentId a \<le> er_equipmentId b)"
      by (intro ext) (simp add: field_le_def)
    then show ?thesis by (simp add: total_preorder_key)
  next
    case 2
    then have "field_le f = (\<lambda>a b. er_equipmentName a \<le> er_equipmentName b)"
      by (intro ext) (simp add: field_le_def)
    then show ?thesis by (simp add: total_preorder_key)
  next
    case 3
    then have "field_le f = (\<lambda>a b. er_workshopName a \<le> er_workshopName b)"
      by (intro ext) (simp add: field_le_def)
    then show ?thesis by (simp add: total_preorder_key)
  next
    case 4
    then have "field_le f = (\<lambda>a b. er_typeName a \<le> er_typeName b)"
      by (intro ext) (simp add: field_le_def)
    then show ?thesis by (simp add: total_preorder_key)
  next
    case 5
    then have "field_le f = (\<lambda>a b. er_baseName a \<le> er_baseName b)"
      by (intro ext) (simp add: field_le_def)
    then show ?thesis by (simp add: total_preorder_key)
  next
    case 6
    then have "field_le f = (\<lambda>a b. null_le (er_createdAt a) (er_createdAt b))"
      by (intro ext) (simp add: field_le_def)
    then show ?thesis by (simp add: total_preorder_null_key)
  next
    case 7
    then have "field_le f = (\<lambda>a b. True)"
      by (intro ext) (simp add: field_le_def sort_fields_def)
    then show ?thesis by (simp add: total_preorder_def)
  qed
qed

lemma total_preorder_requested: "total_preorder (requested_order f ord)"
proof (cases "ord = ''asc''")
  case True
  then have "requested_order f ord = field_le f"
    by (intro ext) (simp add: requested_order_def)
  then show ?thesis by (simp add: total_preorder_field_le)
next
  case False
  then have "requested_order f ord = (\<lambda>a b. field_le f b a)"
    by (intro ext) (simp add: requested_order_def)
  moreover have "total_preorder (\<lambda>a b. field_le f b a)"
    using total_preorder_field_le [of f] unfolding total_preorder_def by blast
  ultimately show ?thesis by simp
qed

lemma total_preorder_on_select:
  "total_preorder le \<Longrightarrow> total_preorder (\<lambda>a b. le (g a) (g b))"
  unfolding total_preorder_def by blast

lemma asc_fun: "asc col = (\<lambda>a b. col a \<le> col b)"
  by (intro ext) (simp add: asc_def)

lemma desc_fun: "desc col = (\<lambda>a b. col b \<le> col a)"
  by (intro ext) (simp add: desc_def)

lemma asc_null_fun: "asc_null col = (\<lambda>a b. null_le (col a) (col b))"
  by (intro ext) (simp add: asc_null_def)

lemma desc_null_fun: "desc_null col = (\<lambda>a b. null_le (col b) (col a))"
  by (intro ext) (simp add: desc_null_def)

lemmas order_funs = asc_fun desc_fun asc_null_fun desc_null_fun

lemma apply_sorting_requested:
  assumes "f \<in> sort_fields" "ord = ''asc'' \<or> ord = ''desc''"
  shows "apply_sorting f ord xs =
         orderBy (\<lambda>a b. requested_order f ord (select_equipment_row a) (select_equipment_row b)) xs"
proof -
  consider "f = ''equipmentId''" | "f = ''equipmentName''" | "f = ''workshopName''"
    | "f = ''typeName''" | "f = ''baseName''" | "f = ''createdAt''" | "f \<notin> sort_fields"
    by (auto simp: sort_fields_def)
  then show ?thesis
  proof cases
    case 1
    with assms(2) show ?thesis
      by (auto simp: apply_sorting_def requested_order_def field_le_def order_funs
                     select_equipment_row_def)
  next
    case 2
    with assms(2) show ?thesis
      by (auto simp: apply_sorting_def requested_order_def field_le_def order_funs
                     select_equipment_row_def)
  next
    case 3
    with assms(2) show ?thesis
      by (auto simp: apply_sorting_def requested_order_def field_le_def order_funs
                     select_equipment_row_def)
  next
    case 4
    with assms(2) show ?thesis
      by (auto simp: apply_sorting_def requested_order_def field_le_def order_funs
                     select_equipment_row_def)
  next
    case 5
    with assms(2) show ?thesis
      by (auto simp: apply_sorting_def requested_order_def field_le_def order_funs
                     select_equipment_row_def)
  next
    case 6
    with assms(2) show ?thesis
      by (auto simp: apply_sorting_def requested_order_def field_le_def order_funs
                     select_equipment_row_def)
  next
    case 7
    with assms(1) show ?thesis by simp
  qed
qed

lemma mset_filter_orderBy:
  "mset (orderBy le (filter P xs)) = filter_mset P (mset (orderBy le xs))"
  by (simp add: mset_orderBy)

lemma length_filter_mset_eq:
  assumes "mset xs = mset ys"
  shows "length (filter P xs) = length (filter P ys)"
proof -
  have "size (filter_mset P (mset xs)) = size (filter_mset P (mset ys))"
    using assms by simp
  then show ?thesis by (simp only: mset_filter [symmetric] size_mset)
qed

section \<open>Conditions\<close>

lemma and_all_Nil: "and_all [] r = Some True"
  by (simp add: and_all_def)

lemma and_all_Cons: "and_all (c # cs) r = tv_and (c r) (and_all cs r)"
  by (simp add: and_all_def)

lemma tv_and_True: "tv_and x y = Some True \<longleftrightarrow> x = Some True \<and> y = Some True"
  by (cases "(x, y)" rule: tv_and.cases) auto

lemma and_all_True: "and_all cs r = Some True \<longleftrightarrow> (\<forall>c \<in> set cs. c r = Some True)"
  by (induction cs) (auto simp: and_all_Nil and_all_Cons tv_and_True)

lemma or_all_Nil: "or_all [] r = Some False"
  by (simp add: or_all_def)

lemma or_all_Cons: "or_all (c # cs) r = tv_or (c r) (or_all cs r)"
  by (simp add: or_all_def)

lemma tv_or_True: "tv_or x y = Some True \<longleftrightarrow> x = Some True \<or> y = Some True"
  by (cases "(x, y)" rule: tv_or.cases) auto

lemma or_all_True: "or_all cs r = Some True \<longleftrightarrow> (\<exists>c \<in> set cs. c r = Some True)"
  by (induction cs) (auto simp: or_all_Nil or_all_Cons tv_or_True)

lemma where_conditions_filter:
  "where_conditions cs rows = filter (\<lambda>r. \<forall>c \<in> set cs. c r = Some True) rows"
  by (cases cs) (auto simp: where_conditions_def sql_where_def and_all_True)

lemma set_where_conditions:
  "set (where_conditions cs rows) = {r \<in> set rows. \<forall>c \<in> set cs. c r = Some True}"
  by (simp add: where_conditions_filter)

lemma where_conditions_snoc:
  "where_conditions (cs @ [c]) rows = filter (\<lambda>r. c r = Some True) (where_conditions cs rows)"
  unfolding where_conditions_filter by (induction rows) auto

lemma ball_if_single:
  "(\<forall>c \<in> set (if b then [x] else []). c j = Some True) \<longleftrightarrow> (b \<longrightarrow> x j = Some True)"
  by (cases b) auto

lemma num_condition:
  "(truthy_num v \<longrightarrow> sql_eq col (the v) j = Some True)
   \<longleftrightarrow> (case v of None \<Rightarrow> True | Some w \<Rightarrow> w = 0 \<or> col j = w)"
  by (cases v) (auto simp: truthy_num_def sql_eq_def)

lemma search_condition:
  "(truthy_str v \<longrightarrow> sql_like col (the v) j = Some True)
   \<longleftrightarrow> (case v of None \<Rightarrow> True | Some s \<Rightarrow> s = [] \<or> like_match (''%'' @ s @ ''%'') (col j))"
  by (cases v) (auto simp: truthy_str_def sql_like_def)

section \<open>The equipment listing\<close>

lemma equipment_conditions_matches:
  assumes "ep_workshopId p = eq_workshopId q" "ep_typeId p = eq_typeId q"
    "ep_baseId p = eq_baseId q" "ep_search p = eq_search q"
  shows "(\<forall>c \<in> set (equipment_conditions p). c j = Some True)
         \<longleftrightarrow> equipment_matches q (select_equipment_row j)"
proof -
  have "(\<forall>c \<in> set (equipment_conditions p). c j = Some True) \<longleftrightarrow>
        (case eq_workshopId q of None \<Rightarrow> True | Some w \<Rightarrow> w = 0 \<or> equipment_workshopId (ej_equipment j) = w)
      \<and> (case eq_typeId q of None \<Rightarrow> True | Some t \<Rightarrow> t = 0 \<or> equipment_typeId (ej_equipment j) = t)
      \<and> (case eq_search q of None \<Rightarrow> True
          | Some s \<Rightarrow> s = [] \<or> like_match (''%'' @ s @ ''%'') (equipment_equipmentName (ej_equipment j)))
      \<and> (case eq_baseId q of None \<Rightarrow> True | Some b \<Rightarrow> b = 0 \<or> workshops_baseId (ej_workshops j) = b)"
    unfolding equipment_conditions_def assms
    by (simp only: set_append ball_Un ball_if_single num_condition search_condition)
  also have "\<dots> \<longleftrightarrow> equipment_matches q (select_equipment_row j)"
    unfolding equipment_matches_def select_equipment_row_def by (auto cong: option.case_cong)
  finally show ?thesis .
qed

lemma filter_map_select: "filter P (map f xs) = map f (filter (\<lambda>x. P (f x)) xs)"
  by (induction xs) auto

lemma math_ceil_div_ceiling:
  assumes "0 < l"
  shows "math_ceil_div n l = Some \<lceil>real_of_int n / real_of_int l\<rceil>"
proof -
  have "\<lceil>real_of_int n / real_of_int l\<rceil> = - \<lfloor>real_of_int (- n) / real_of_int l\<rfloor>"
    by (simp add: ceiling_def)
  also have "\<dots> = - ((- n) div l)"
    by (simp only: floor_divide_of_int_eq)
  finally show ?thesis using assms by (simp add: math_ceil_div_def)
qed

lemma getEquipments_page:
  assumes "ep_sortBy params = Some f" "f \<in> sort_fields"
      and "ep_sortOrder params = Some ord" "ord = ''asc'' \<or> ord = ''desc''"
      and "ep_page params = Some p" "1 \<le> p"
      and "ep_limit params = Some l" "1 \<le> l"
  shows "getEquipments db params =
      Inr (map select_equipment_row
             (take (nat l) (drop (nat ((p - 1) * l))
                (orderBy (\<lambda>a b. requested_order f ord (select_equipment_row a) (select_equipment_row b))
                   (where_conditions (equipment_conditions params) (equipment_joined db))))),
           int (length (where_conditions (equipment_conditions params) (equipment_joined db))))"
proof -
  have off: "0 \<le> (p - 1) * l" using assms(6,8) by simp
  have lim: "limit_offset l ((p - 1) * l) xs = Inr (take (nat l) (drop (nat ((p - 1) * l)) xs))" for xs :: "equipment_join list"
    using off assms(8) by (simp add: limit_offset_def)
  show ?thesis
    unfolding getEquipments_def Let_def assms(1,3,5,7) option.case
      apply_sorting_requested [OF assms(2) assms(4)] lim
    by simp
qed

lemma matching_rows_select:
  "matching_rows db q =
   map select_equipment_row
     (filter (\<lambda>j. equipment_matches q (select_equipment_row j)) (equipment_joined db))"
  unfolding matching_rows_def by (rule filter_map_select)

lemma equipment_params_kept:
  "where_conditions (equipment_conditions (equipment_params q)) (equipment_joined db) =
   filter (\<lambda>j. equipment_matches q (select_equipment_row j)) (equipment_joined db)"
proof -
  have p5: "ep_workshopId (equipment_params q) = eq_workshopId q"
    "ep_typeId (equipment_params q) = eq_typeId q"
    "ep_baseId (equipment_params q) = eq_baseId q"
    "ep_search (equipment_params q) = eq_search q"
    by (simp_all add: equipment_params_def)
  show ?thesis
    unfolding where_conditions_filter
    by (simp only: equipment_conditions_matches [OF p5])
qed

lemma getEquipments_of_query:
  assumes sortBy: "eq_sortBy q = Some f" "f \<in> sort_fields"
      and sortOrder: "ep_sortOrder (equipment_params q) = Some ord" "ord = ''asc'' \<or> ord = ''desc''"
      and page: "ep_page (equipment_params q) = Some p" "1 \<le> p"
      and limit: "ep_limit (equipment_params q) = Some l" "1 \<le> l"
  shows "getEquipments db (equipment_params q) =
      Inr (map select_equipment_row
             (take (nat l) (drop (nat ((p - 1) * l))
                (orderBy (\<lambda>a b. requested_order f ord (select_equipment_row a) (select_equipment_row b))
                   (filter (\<lambda>j. equipment_matches q (select_equipment_row j)) (equipment_joined db))))),
           int (length (matching_rows db q)))"
proof -
  have p1: "ep_sortBy (equipment_params q) = Some f"
    by (simp add: equipment_params_def sortBy(1))
  show ?thesis
    unfolding getEquipments_page [OF p1 sortBy(2) sortOrder page limit]
      equipment_params_kept matching_rows_select
    by (simp only: length_map)
qed

text \<open>
  C1. A request sorted by one of the six fields, whose page \<open>p\<close> (1 when it names none)
  and limit \<open>l\<close> (10 when it names none) are at least 1 and whose direction (\<open>asc\<close> when
  it names none) is \<open>asc\<close> or \<open>desc\<close>, is answered with 200. The data is the slice of \<open>l\<close>
  rows at offset \<open>(p - 1) * l\<close> of a list \<open>rows\<close> that holds exactly the rows matching the
  request's filters and is ordered by the field in the requested direction;
  \<open>pagination.total\<close> is the number of rows matching the same filters and
  \<open>pagination.totalPages\<close> is the ceiling of \<open>total / limit\<close>.
\<close>

theorem equipment_listing_page:
  assumes sortBy: "eq_sortBy q = Some f" "f \<in> sort_fields"
      and sortOrder: "ep_sortOrder (equipment_params q) = Some ord" "ord = ''asc'' \<or> ord = ''desc''"
      and page: "ep_page (equipment_params q) = Some p" "1 \<le> p"
      and limit: "ep_limit (equipment_params q) = Some l" "1 \<le> l"
    shows "\<exists>rows. mset rows = mset (matching_rows db q)
             \<and> sorted_wrt (requested_order f ord) rows
             \<and> get_api_equipment db q =
                 Ok200 (take (nat l) (drop (nat ((p - 1) * l)) rows),
                        \<lparr>pg_page = p, pg_limit = l,
                         pg_total = int (length (matching_rows db q)),
                         pg_totalPages =
                           Some \<lceil>real (length (matching_rows db q)) / real_of_int l\<rceil>\<rparr>)"
proof -
  define le where "le = (\<lambda>a b. requested_order f ord (select_equipment_row a) (select_equipment_row b))"
  define kept where "kept = filter (\<lambda>j. equipment_matches q (select_equipment_row j)) (equipment_joined db)"
  define rows where "rows = map select_equipment_row (orderBy le kept)"
  have storage: "getEquipments db (equipment_params q) =
      Inr (take (nat l) (drop (nat ((p - 1) * l)) rows), int (length (matching_rows db q)))"
    unfolding getEquipments_of_query [OF assms] rows_def le_def kept_def
    by (simp only: take_map drop_map)
  have ceil: "math_ceil_div (int (length (matching_rows db q))) l =
              Some \<lceil>real (length (matching_rows db q)) / real_of_int l\<rceil>"
    using math_ceil_div_ceiling [of l "int (length (matching_rows db q))"] limit(2) by simp
  have pl: "the (ep_page (equipment_params q)) = p" "the (ep_limit (equipment_params q)) = l"
    by (simp_all add: page(1) limit(1))
  have response: "get_api_equipment db q =
      Ok200 (take (nat l) (drop (nat ((p - 1) * l)) rows),
             \<lparr>pg_page = p, pg_limit = l, pg_total = int (length (matching_rows db q)),
              pg_totalPages = Some \<lceil>real (length (matching_rows db q)) / real_of_int l\<rceil>\<rparr>)"
    unfolding get_api_equipment_def Let_def storage pl
    by (simp only: sum.case prod.case ceil)
  have perm: "mset rows = mset (matching_rows db q)"
    unfolding matching_rows_select rows_def kept_def
    by (simp only: mset_map mset_orderBy)
  have "total_preorder le"
    unfolding le_def by (rule total_preorder_on_select [OF total_preorder_requested])
  then have "sorted_wrt le (orderBy le kept)"
    by (rule sorted_wrt_orderBy)
  then have sorted: "sorted_wrt (requested_order f ord) rows"
    unfolding rows_def le_def by (simp only: sorted_wrt_map)
  show ?thesis
    by (intro exI [of _ rows] conjI perm sorted response)
qed

text \<open>
  The second page of two of the plant's machines, by name descending: of Mill, Lathe B and
  Lathe A it holds Lathe A.
\<close>

theorem equipment_listing_page_witness:
  "map er_equipmentName (fst (the (response_body (get_api_equipment db_plant listing_page_two))))
     = [''Lathe A'']
   \<and> (\<exists>rows. mset rows = mset (matching_rows db_plant listing_page_two)
         \<and> sorted_wrt (requested_order ''equipmentName'' ''desc'') rows
         \<and> get_api_equipment db_plant listing_page_two =
             Ok200 (take (nat 2) (drop (nat ((2 - 1) * 2)) rows),
                    \<lparr>pg_page = 2, pg_limit = 2,
                     pg_total = int (length (matching_rows db_plant listing_page_two)),
                     pg_totalPages =
                       Some \<lceil>real (length (matching_rows db_plant listing_page_two)) / real_of_int 2\<rceil>\<rparr>))"
proof (rule conjI)
  show "map er_equipmentName (fst (the (response_body (get_api_equipment db_plant listing_page_two))))
     = [''Lathe A'']"
    by code_simp
  show "\<exists>rows. mset rows = mset (matching_rows db_plant listing_page_two)
         \<and> sorted_wrt (requested_order ''equipmentName'' ''desc'') rows
         \<and> get_api_equipment db_plant listing_page_two =
             Ok200 (take (nat 2) (drop (nat ((2 - 1) * 2)) rows),
                    \<lparr>pg_page = 2, pg_limit = 2,
                     pg_total = int (length (matching_rows db_plant listing_page_two)),
                     pg_totalPages =
                       Some \<lceil>real (length (matching_rows db_plant listing_page_two)) / real_of_int 2\<rceil>\<rparr>)"
    by (rule equipment_listing_page)
       (simp_all add: listing_page_two_def sort_fields_def equipment_params_def truthy_str_def)
qed

section \<open>Pattern matching\<close>

lemma occurs_in_iff: "occurs_in k s \<longleftrightarrow> (\<exists>pre suf. s = pre @ k @ suf)"
proof (induction s)
  case Nil
  then show ?case by auto
next
  case (Cons c cs)
  show ?case
  proof
    assume "occurs_in k (c # cs)"
    then consider "take (length k) (c # cs) = k" | "occurs_in k cs" by auto
    then show "\<exists>pre suf. c # cs = pre @ k @ suf"
    proof cases
      case 1
      then have "c # cs = [] @ k @ drop (length k) (c # cs)"
        by (metis append_Nil append_take_drop_id)
      then show ?thesis by blast
    next
      case 2
      then obtain pre suf where "cs = pre @ k @ suf" using Cons.IH by blast
      then have "c # cs = (c # pre) @ k @ suf" by simp
      then show ?thesis by blast
    qed
  next
    assume "\<exists>pre suf. c # cs = pre @ k @ suf"
    then obtain pre suf where eq: "c # cs = pre @ k @ suf" by blast
    show "occurs_in k (c # cs)"
    proof (cases pre)
      case Nil
      with eq have "take (length k) (c # cs) = k" by simp
      then show ?thesis by simp
    next
      case (Cons p pre')
      with eq have "cs = pre' @ k @ suf" by simp
      then have "occurs_in k cs" using Cons.IH by blast
      then show ?thesis by simp
    qed
  qed
qed

lemma like_match_percent: "like_match ''%'' s"
  by (induction s) (simp_all add: like_match.simps)

lemma like_match_percent_Cons:
  "like_match (CHR ''%'' # ps) s \<longleftrightarrow> (\<exists>pre suf. s = pre @ suf \<and> like_match ps suf)"
proof (induction s)
  case Nil
  then show ?case by (simp add: like_match.simps)
next
  case (Cons c cs)
  have "like_match (CHR ''%'' # ps) (c # cs) \<longleftrightarrow>
        like_match ps (c # cs) \<or> like_match (CHR ''%'' # ps) cs"
    by (simp add: like_match.simps)
  also have "\<dots> \<longleftrightarrow> like_match ps (c # cs) \<or> (\<exists>pre suf. cs = pre @ suf \<and> like_match ps suf)"
    using Cons.IH by simp
  also have "\<dots> \<longleftrightarrow> (\<exists>pre suf. c # cs = pre @ suf \<and> like_match ps suf)"
  proof
    assume "like_match ps (c # cs) \<or> (\<exists>pre suf. cs = pre @ suf \<and> like_match ps suf)"
    then show "\<exists>pre suf. c # cs = pre @ suf \<and> like_match ps suf"
    proof
      assume "like_match ps (c # cs)"
      then have "c # cs = [] @ (c # cs) \<and> like_match ps (c # cs)" by simp
      then show ?thesis by blast
    next
      assume "\<exists>pre suf. cs = pre @ suf \<and> like_match ps suf"
      then obtain pre suf where "cs = pre @ suf" "like_match ps suf" by blast
      then have "c # cs = (c # pre) @ suf \<and> like_match ps suf" by simp
      then show ?thesis by blast
    qed
  next
    assume "\<exists>pre suf. c # cs = pre @ suf \<and> like_match ps suf"
    then obtain pre suf where eq: "c # cs = pre @ suf" and m: "like_match ps suf" by blast
    show "like_match ps (c # cs) \<or> (\<exists>pre suf. cs = pre @ suf \<and> like_match ps suf)"
    proof (cases pre)
      case Nil
      with eq m show ?thesis by simp
    next
      case (Cons p pre')
      with eq have "cs = pre' @ suf" by simp
      with m show ?thesis by blast
    qed
  qed
  finally show ?case .
qed

lemma like_match_plain_Cons:
  assumes "p \<noteq> CHR ''%''" "p \<noteq> CHR ''_''" "p \<noteq> CHR 0x5C"
  shows "like_match (p # ps) s \<longleftrightarrow> (\<exists>t. s = p # t \<and> like_match ps t)"
  using assms by (cases s) (auto simp: like_match.simps)

lemma like_match_plain_prefix:
  "plain k \<Longrightarrow> like_match (k @ ps) s \<longleftrightarrow> (\<exists>t. s = k @ t \<and> like_match ps t)"
proof (induction k arbitrary: s)
  case Nil
  then show ?case by simp
next
  case (Cons p k)
  from Cons.prems have p: "p \<noteq> CHR ''%''" "p \<noteq> CHR ''_''" "p \<noteq> CHR 0x5C" and k: "plain k"
    by (auto simp: plain_def)
  have "like_match ((p # k) @ ps) s \<longleftrightarrow> (\<exists>t. s = p # t \<and> like_match (k @ ps) t)"
    using like_match_plain_Cons [OF p] by simp
  also have "\<dots> \<longleftrightarrow> (\<exists>t. s = p # t \<and> (\<exists>u. t = k @ u \<and> like_match ps u))"
    using Cons.IH [OF k] by simp
  also have "\<dots> \<longleftrightarrow> (\<exists>u. s = (p # k) @ u \<and> like_match ps u)"
    by auto
  finally show ?case .
qed

lemma like_contains:
  assumes "plain k"
  shows "like_match (''%'' @ k @ ''%'') s \<longleftrightarrow> occurs_in k s"
proof -
  have "like_match (''%'' @ k @ ''%'') s \<longleftrightarrow>
        (\<exists>pre suf. s = pre @ suf \<and> like_match (k @ ''%'') suf)"
    using like_match_percent_Cons [of "k @ ''%''" s] by simp
  also have "\<dots> \<longleftrightarrow> (\<exists>pre suf. s = pre @ suf \<and> (\<exists>t. suf = k @ t))"
    using like_match_plain_prefix [OF assms, of "''%''"] like_match_percent by simp
  also have "\<dots> \<longleftrightarrow> (\<exists>pre t. s = pre @ k @ t)"
    by auto
  finally show ?thesis by (simp add: occurs_in_iff)
qed

lemma like_contains_Cons:
  "plain k \<Longrightarrow> like_match (CHR ''%'' # k @ ''%'') s \<longleftrightarrow> occurs_in k s"
  using like_contains [of k s] by simp

lemma sql_like_True: "plain k \<Longrightarrow> sql_like col k r = Some True \<longleftrightarrow> occurs_in k (col r)"
  by (simp add: sql_like_def like_contains_Cons)

lemma sql_like_null_True:
  "plain k \<Longrightarrow> sql_like_null col k r = Some True \<longleftrightarrow> occurs_in_null k (col r)"
  by (cases "col r") (simp_all add: sql_like_null_def occurs_in_null_def like_contains_Cons)

lemma keyword_condition:
  assumes "plain k"
  shows "or_all
           [sql_like (\<lambda>j. spareParts_materialCode (aj_spareParts j)) k,
            sql_like_null (\<lambda>j. spareParts_description (aj_spareParts j)) k,
            sql_like_null (\<lambda>j. spareParts_specification (aj_spareParts j)) k,
            sql_like (\<lambda>j. equipment_equipmentName (aj_equipment j)) k,
            sql_like (\<lambda>j. components_componentName (aj_components j)) k] j = Some True
         \<longleftrightarrow> keyword_occurs k j"
  unfolding or_all_True keyword_occurs_def
  by (simp add: sql_like_True [OF assms] sql_like_null_True [OF assms])

lemma association_conditions_keyword:
  assumes "k \<noteq> []"
  shows "association_conditions (p\<lparr>ap_keyword := Some k\<rparr>) lv =
         association_conditions (p\<lparr>ap_keyword := None\<rparr>) lv @
         [or_all
           [sql_like (\<lambda>j. spareParts_materialCode (aj_spareParts j)) k,
            sql_like_null (\<lambda>j. spareParts_description (aj_spareParts j)) k,
            sql_like_null (\<lambda>j. spareParts_specification (aj_spareParts j)) k,
            sql_like (\<lambda>j. equipment_equipmentName (aj_equipment j)) k,
            sql_like (\<lambda>j. components_componentName (aj_components j)) k]]"
  using assms by (simp add: association_conditions_def truthy_str_def)

section \<open>The association listing\<close>

lemma keyword_occurs_select: "keyword_occurs k j = keyword_in_row k (select_association_row j)"
  by (simp add: keyword_occurs_def keyword_in_row_def select_association_row_def)

lemma mset_select_filter:
  "mset (map select_association_row (filter (keyword_occurs k) xs)) =
   filter_mset (keyword_in_row k) (mset (map select_association_row xs))"
  by (induction xs) (simp_all add: keyword_occurs_select)

text \<open>
  C7, as the code has it. For a non-empty keyword without \<open>%\<close>, \<open>_\<close> and backslash the
  listing with the keyword returns, of the rows the same listing returns without it (the
  other supplied filters), exactly those in which the keyword occurs in the material
  code, the description, the specification, the equipment name or the component name;
  a failing query fails alike with and without the keyword.
\<close>

theorem keyword_filter_plain:
  assumes "k \<noteq> []" "plain k"
  shows "map_sum id mset (getAssociations db (p\<lparr>ap_keyword := Some k\<rparr>)) =
         map_sum id (\<lambda>others. filter_mset (keyword_in_row k) (mset others))
           (getAssociations db (p\<lparr>ap_keyword := None\<rparr>))"
proof (cases "enum_literals (case ap_importanceLevel p of None \<Rightarrow> [] | Some ls \<Rightarrow> ls)")
  case None
  then show ?thesis by (simp add: getAssociations_def associations_query_def)
next
  case (Some lv)
  define others where "others = where_conditions (association_conditions (p\<lparr>ap_keyword := None\<rparr>) lv)
             (association_joined db)"
  have kept: "where_conditions (association_conditions (p\<lparr>ap_keyword := Some k\<rparr>) lv)
             (association_joined db) = filter (keyword_occurs k) others"
    unfolding association_conditions_keyword [OF assms(1)] where_conditions_snoc
      keyword_condition [OF assms(2)] others_def ..
  have "mset (map select_association_row (orderBy association_order (filter (keyword_occurs k) others))) =
        filter_mset (keyword_in_row k)
          (mset (map select_association_row (orderBy association_order others)))"
  proof -
    have "mset (map select_association_row (orderBy association_order (filter (keyword_occurs k) others)))
          = mset (map select_association_row (filter (keyword_occurs k) others))"
      by (simp only: mset_map mset_orderBy)
    also have "\<dots> = filter_mset (keyword_in_row k) (mset (map select_association_row others))"
      by (rule mset_select_filter)
    also have "mset (map select_association_row others)
               = mset (map select_association_row (orderBy association_order others))"
      by (simp only: mset_map mset_orderBy)
    finally show ?thesis .
  qed
  with Some show ?thesis
    by (simp add: getAssociations_def associations_query_def Let_def kept others_def)
qed

text \<open>The keyword \<open>bear\<close> on the plant: it occurs in the description of part 1 only.\<close>

theorem keyword_filter_plain_witness:
  "map_sum id (map ar_id) (getAssociations db_plant (no_association_params\<lparr>ap_keyword := Some ''bear''\<rparr>))
     = Inr [1]
   \<and> map_sum id mset (getAssociations db_plant (no_association_params\<lparr>ap_keyword := Some ''bear''\<rparr>)) =
     map_sum id (\<lambda>others. filter_mset (keyword_in_row ''bear'') (mset others))
       (getAssociations db_plant (no_association_params\<lparr>ap_keyword := None\<rparr>))"
proof (rule conjI)
  show "map_sum id (map ar_id) (getAssociations db_plant (no_association_params\<lparr>ap_keyword := Some ''bear''\<rparr>))
     = Inr [1]"
    by code_simp
  show "map_sum id mset (getAssociations db_plant (no_association_params\<lparr>ap_keyword := Some ''bear''\<rparr>)) =
     map_sum id (\<lambda>others. filter_mset (keyword_in_row ''bear'') (mset others))
       (getAssociations db_plant (no_association_params\<lparr>ap_keyword := None\<rparr>))"
    by (rule keyword_filter_plain) (simp_all add: plain_def)
qed

text \<open>
  C7 as stated fails on a keyword that \<open>LIKE\<close> reads as a pattern: the keyword \<open>%\<close>
  returns all four association rows of the plant, and \<open>%\<close> occurs in none of their
  five fields.
\<close>

theorem keyword_wildcard_counterexample:
  "map_sum id (map (keyword_in_row ''%''))
     (getAssociations db_plant (no_association_params\<lparr>ap_keyword := Some ''%''\<rparr>))
   = Inr [False, False, False, False]"
  by code_simp

lemma associations_query_rows:
  assumes "associations_query db p = Inr rows"
  obtains lv where
    "enum_literals (case ap_importanceLevel p of None \<Rightarrow> [] | Some ls \<Rightarrow> ls) = Some lv"
    "rows = orderBy association_order
       (where_conditions (association_conditions p lv) (association_joined db))"
  using assms by (auto simp: associations_query_def Let_def split: option.splits)

lemma associations_query_kept:
  assumes "associations_query db p = Inr rows" "j \<in> set rows"
      and "enum_literals (case ap_importanceLevel p of None \<Rightarrow> [] | Some ls \<Rightarrow> ls) = Some lv"
  shows "j \<in> set (association_joined db)"
    and "\<forall>c \<in> set (association_conditions p lv). c j = Some True"
proof -
  from assms(1) obtain lv' where
    lv': "enum_literals (case ap_importanceLevel p of None \<Rightarrow> [] | Some ls \<Rightarrow> ls) = Some lv'"
    and rows: "rows = orderBy association_order
       (where_conditions (association_conditions p lv') (association_joined db))"
    by (rule associations_query_rows)
  from lv' assms(3) have "lv' = lv" by simp
  with rows assms(2) have
    "j \<in> {r \<in> set (association_joined db). \<forall>c \<in> set (association_conditions p lv). c r = Some True}"
    by (simp only: set_orderBy set_where_conditions)
  then show "j \<in> set (association_joined db)"
    and "\<forall>c \<in> set (association_conditions p lv). c j = Some True"
    by simp_all
qed

lemma importance_condition_listed:
  assumes "ap_importanceLevel p = Some ls" "ls \<noteq> []"
  shows "sql_inArray (\<lambda>j. components_importanceLevel (aj_components j)) lv
         \<in> set (association_conditions p lv)"
  using assms by (simp add: association_conditions_def)

lemma supply_cycle_condition_listed:
  assumes "ap_supplyCycleRange p = Some [lo, hi]"
  shows "and_all [sql_ge_null aj_supplyCycleWeeks lo, sql_le_null aj_supplyCycleWeeks hi]
         \<in> set (association_conditions p lv)"
  using assms by (simp add: association_conditions_def Let_def)

lemma supply_cycle_condition_True:
  assumes "and_all [sql_ge_null aj_supplyCycleWeeks lo, sql_le_null aj_supplyCycleWeeks hi] j = Some True"
  shows "\<exists>u. aj_sparePartSuppliers j = Some u
             \<and> lo \<le> sparePartSuppliers_supplyCycleWeeks u
             \<and> sparePartSuppliers_supplyCycleWeeks u \<le> hi"
  using assms
  by (cases "aj_sparePartSuppliers j")
     (simp_all add: and_all_True sql_ge_null_def sql_le_null_def aj_supplyCycleWeeks_def)

lemma get_api_associations_Ok:
  "get_api_associations db q = Ok200 associations \<longleftrightarrow>
   (\<exists>rows. associations_query db (association_params q) = Inr rows
          \<and> associations = map select_association_row rows)"
  by (auto simp: get_api_associations_def getAssociations_def split: sum.splits)

text \<open>
  C2. A request with \<open>importanceLevel=A,B\<close> is answered with 200 and rows of the join
  whose component has importance level A or B; every 200 answer to a request with
  \<open>supplyCycleRange=2,6\<close> holds only rows of the join with a supplier whose supply cycle
  \<open>w\<close> satisfies \<open>2 \<le> w \<le> 6\<close>.
\<close>

theorem associations_importance_and_supply_cycle:
  "(aq_importanceLevel q = Some ''A,B'' \<longrightarrow>
      (\<exists>rows. get_api_associations db q = Ok200 (map select_association_row rows)
         \<and> set rows \<subseteq> set (association_joined db)
         \<and> (\<forall>j \<in> set rows. components_importanceLevel (aj_components j) \<in> {A, B})))
   \<and> (aq_supplyCycleRange q = Some [2, 6] \<longrightarrow>
      (\<forall>associations. get_api_associations db q = Ok200 associations \<longrightarrow>
         (\<exists>rows. associations = map select_association_row rows
            \<and> set rows \<subseteq> set (association_joined db)
            \<and> (\<forall>j \<in> set rows. \<exists>u. aj_sparePartSuppliers j = Some u
                  \<and> 2 \<le> sparePartSuppliers_supplyCycleWeeks u
                  \<and> sparePartSuppliers_supplyCycleWeeks u \<le> 6))))"
proof (intro conjI impI allI)
  assume levels: "aq_importanceLevel q = Some ''A,B''"
  define p where "p = association_params q"
  have pl: "ap_importanceLevel p = Some [''A'', ''B'']"
    by (simp add: p_def association_params_def levels truthy_str_def)
  then have lv: "enum_literals (case ap_importanceLevel p of None \<Rightarrow> [] | Some ls \<Rightarrow> ls) = Some [A, B]"
    by simp
  define rows where "rows = orderBy association_order
       (where_conditions (association_conditions p [A, B]) (association_joined db))"
  have query: "associations_query db p = Inr rows"
    unfolding associations_query_def lv rows_def by (simp add: Let_def)
  then have response: "get_api_associations db q = Ok200 (map select_association_row rows)"
    by (simp add: get_api_associations_Ok p_def)
  have "j \<in> set (association_joined db) \<and> components_importanceLevel (aj_components j) \<in> {A, B}"
    if "j \<in> set rows" for j
  proof -
    from associations_query_kept [OF query that lv]
    have j: "j \<in> set (association_joined db)"
      and all: "\<forall>c \<in> set (association_conditions p [A, B]). c j = Some True"
      by simp_all
    from all importance_condition_listed [OF pl, of "[A, B]"]
    have "sql_inArray (\<lambda>j. components_importanceLevel (aj_components j)) [A, B] j = Some True"
      by simp
    with j show ?thesis by (simp add: sql_inArray_def)
  qed
  with response
  show "\<exists>rows. get_api_associations db q = Ok200 (map select_association_row rows)
         \<and> set rows \<subseteq> set (association_joined db)
         \<and> (\<forall>j \<in> set rows. components_importanceLevel (aj_components j) \<in> {A, B})"
    by (intro exI [of _ rows]) auto
next
  fix associations
  assume range: "aq_supplyCycleRange q = Some [2, 6]"
    and ok: "get_api_associations db q = Ok200 associations"
  define p where "p = association_params q"
  from ok obtain rows where query: "associations_query db p = Inr rows"
    and associations: "associations = map select_association_row rows"
    unfolding get_api_associations_Ok p_def by blast
  from query obtain lv where
    lv: "enum_literals (case ap_importanceLevel p of None \<Rightarrow> [] | Some ls \<Rightarrow> ls) = Some lv"
    by (rule associations_query_rows)
  have pr: "ap_supplyCycleRange p = Some [2, 6]"
    by (simp add: p_def association_params_def range)
  have "j \<in> set (association_joined db) \<and> (\<exists>u. aj_sparePartSuppliers j = Some u
                  \<and> 2 \<le> sparePartSuppliers_supplyCycleWeeks u
                  \<and> sparePartSuppliers_supplyCycleWeeks u \<le> 6)"
    if "j \<in> set rows" for j
  proof -
    from associations_query_kept [OF query that lv]
    have j: "j \<in> set (association_joined db)"
      and all: "\<forall>c \<in> set (association_conditions p lv). c j = Some True"
      by simp_all
    from all supply_cycle_condition_listed [OF pr, of lv]
    have "and_all [sql_ge_null aj_supplyCycleWeeks 2, sql_le_null aj_supplyCycleWeeks 6] j = Some True"
      by simp
    from supply_cycle_condition_True [OF this] j show ?thesis by simp
  qed
  with associations
  show "\<exists>rows. associations = map select_association_row rows
            \<and> set rows \<subseteq> set (association_joined db)
            \<and> (\<forall>j \<in> set rows. \<exists>u. aj_sparePartSuppliers j = Some u
                  \<and> 2 \<le> sparePartSuppliers_supplyCycleWeeks u
                  \<and> sparePartSuppliers_supplyCycleWeeks u \<le> 6)"
    by (intro exI [of _ rows]) auto
qed

text \<open>
  Both filters on the plant: only association 1 (component Spindle, level A, supplier
  Rapid with 4 weeks) is returned.
\<close>

theorem associations_importance_and_supply_cycle_witness:
  "map ar_id (the (response_body (get_api_associations db_plant query_A_B_2_6))) = [1]
   \<and> (\<exists>rows. get_api_associations db_plant query_A_B_2_6 = Ok200 (map select_association_row rows)
         \<and> set rows \<subseteq> set (association_joined db_plant)
         \<and> (\<forall>j \<in> set rows. components_importanceLevel (aj_components j) \<in> {A, B}))
   \<and> (\<exists>rows. the (response_body (get_api_associations db_plant query_A_B_2_6))
               = map select_association_row rows
         \<and> set rows \<subseteq> set (association_joined db_plant)
         \<and> (\<forall>j \<in> set rows. \<exists>u. aj_sparePartSuppliers j = Some u
               \<and> 2 \<le> sparePartSuppliers_supplyCycleWeeks u
               \<and> sparePartSuppliers_supplyCycleWeeks u \<le> 6))"
proof -
  have levels: "aq_importanceLevel query_A_B_2_6 = Some ''A,B''"
    by (simp add: query_A_B_2_6_def)
  have range: "aq_supplyCycleRange query_A_B_2_6 = Some [2, 6]"
    by (simp add: query_A_B_2_6_def)
  have ok: "get_api_associations db_plant query_A_B_2_6 =
            Ok200 (the (response_body (get_api_associations db_plant query_A_B_2_6)))"
    by code_simp
  have ids: "map ar_id (the (response_body (get_api_associations db_plant query_A_B_2_6))) = [1]"
    by code_simp
  from associations_importance_and_supply_cycle [of query_A_B_2_6 db_plant] levels range ok ids
  show ?thesis by blast
qed

section \<open>Zero as an id filter\<close>







text \<open>
  On the plant, with an id filter of \<open>0\<close>: both workshops, all three machines and all four
  association rows are returned.
\<close>

lemma zero_filter_on_the_plant:
  "length (getWorkshops db_plant (Some 0)) = 2
   \<and> map_sum id (\<lambda>r. (length (fst r), snd r))
         (getEquipments db_plant (no_equipments_params\<lparr>ep_workshopId := Some 0\<rparr>)) = Inr (3, 3)
   \<and> map_sum id (\<lambda>r. (length (fst r), snd r))
         (getEquipments db_plant (no_equipments_params\<lparr>ep_typeId := Some 0\<rparr>)) = Inr (3, 3)
   \<and> map_sum id (\<lambda>r. (length (fst r), snd r))
         (getEquipments db_plant (no_equipments_params\<lparr>ep_baseId := Some 0\<rparr>)) = Inr (3, 3)
   \<and> map_sum id length
         (getAssociations db_plant (no_association_params\<lparr>ap_equipmentId := Some 0\<rparr>)) = Inr 4
   \<and> map_sum id length
         (getAssociations db_plant (no_association_params\<lparr>ap_componentId := Some 0\<rparr>)) = Inr 4
   \<and> map_sum id length
         (getAssociations db_plant (no_association_params\<lparr>ap_sparePartId := Some 0\<rparr>)) = Inr 4"
  by code_simp

section \<open>The base hierarchy\<close>

lemma apply_sorting_default: "apply_sorting ''equipment_id'' ''asc'' xs = xs"
  by (simp add: apply_sorting_def)

lemma workshop_conditions:
  "equipment_conditions (no_equipments_params\<lparr>ep_workshopId := Some wid, ep_limit := Some 100\<rparr>) =
   (if wid \<noteq> 0 then [sql_eq (\<lambda>j. equipment_workshopId (ej_equipment j)) wid] else [])"
  by (simp add: equipment_conditions_def no_equipments_params_def truthy_num_def truthy_str_def)

lemma getEquipments_workshop:
  "\<exists>rows n. getEquipments db (no_equipments_params\<lparr>ep_workshopId := Some wid, ep_limit := Some 100\<rparr>)
            = Inr (map select_equipment_row (take 100 rows), n)
          \<and> (wid \<noteq> 0 \<longrightarrow> rows = workshop_equipment db wid)"
proof -
  define rows where "rows = where_conditions
     (equipment_conditions (no_equipments_params\<lparr>ep_workshopId := Some wid, ep_limit := Some 100\<rparr>))
     (equipment_joined db)"
  have "getEquipments db (no_equipments_params\<lparr>ep_workshopId := Some wid, ep_limit := Some 100\<rparr>)
        = Inr (map select_equipment_row (take 100 rows), int (length rows))"
    unfolding getEquipments_def Let_def rows_def [symmetric]
    by (simp add: no_equipments_params_def apply_sorting_default limit_offset_def)
  moreover have "rows = workshop_equipment db wid" if "wid \<noteq> 0"
    unfolding rows_def workshop_conditions workshop_equipment_def where_conditions_filter
    using that by (simp add: sql_eq_def)
  ultimately show ?thesis by blast
qed

lemma workshop_node_children:
  "\<exists>n. workshop_node db w = Inr n
       \<and> length (node_children n) \<le> 100
       \<and> (workshops_workshopId w \<noteq> 0 \<longrightarrow>
            node_children n =
              map equipment_leaf (map select_equipment_row
                (take 100 (workshop_equipment db (workshops_workshopId w)))))"
proof -
  from getEquipments_workshop [of db "workshops_workshopId w"] obtain rows n where
    eq: "getEquipments db (no_equipments_params\<lparr>ep_workshopId := Some (workshops_workshopId w),
            ep_limit := Some 100\<rparr>) = Inr (map select_equipment_row (take 100 rows), n)"
    and rows: "workshops_workshopId w \<noteq> 0 \<longrightarrow> rows = workshop_equipment db (workshops_workshopId w)"
    by blast
  show ?thesis
    unfolding workshop_node_def eq using rows by simp
qed

lemma promise_all_list_all2:
  assumes "\<forall>x \<in> set xs. \<exists>y. f x = Inr y \<and> P x y"
  shows "\<exists>ys. promise_all (map f xs) = Inr ys \<and> list_all2 P xs ys"
  using assms
proof (induction xs)
  case Nil
  then show ?case by simp
next
  case (Cons x xs)
  then obtain y ys where "f x = Inr y" "P x y" "promise_all (map f xs) = Inr ys" "list_all2 P xs ys"
    by auto
  then show ?case by simp
qed

text \<open>
  C10. For an existing base the hierarchy is answered with 200, one child per workshop
  of the base; a workshop node has at most 100 equipment children, and for a workshop
  (with a non-zero id) they are the first 100 joined equipment rows of the workshop, so
  any further row is left out.
\<close>

theorem base_hierarchy_first_hundred:
  assumes "getBase db baseId = Some b"
  shows "\<exists>children.
           get_api_hierarchy_base db baseId =
             Ok200 (TreeNode (JNum (bases_baseId b)) (JStr (bases_baseName b)) BaseNode
                      (base_object b) children)
         \<and> list_all2
             (\<lambda>w n. length (node_children n) \<le> 100
                  \<and> (workshops_workshopId w \<noteq> 0 \<longrightarrow>
                       node_children n =
                         map equipment_leaf (map select_equipment_row
                           (take 100 (workshop_equipment db (workshops_workshopId w))))))
             (getWorkshops db (Some baseId)) children"
proof -
  from promise_all_list_all2 [of "getWorkshops db (Some baseId)" "workshop_node db"
      "\<lambda>w n. length (node_children n) \<le> 100
                  \<and> (workshops_workshopId w \<noteq> 0 \<longrightarrow>
                       node_children n =
                         map equipment_leaf (map select_equipment_row
                           (take 100 (workshop_equipment db (workshops_workshopId w)))))"]
    workshop_node_children [of db]
  obtain children where
    all: "promise_all (map (workshop_node db) (getWorkshops db (Some baseId))) = Inr children"
    and rel: "list_all2
             (\<lambda>w n. length (node_children n) \<le> 100
                  \<and> (workshops_workshopId w \<noteq> 0 \<longrightarrow>
                       node_children n =
                         map equipment_leaf (map select_equipment_row
                           (take 100 (workshop_equipment db (workshops_workshopId w))))))
             (getWorkshops db (Some baseId)) children"
    by blast
  have "get_api_hierarchy_base db baseId =
        Ok200 (TreeNode (JNum (bases_baseId b)) (JStr (bases_baseName b)) BaseNode
                 (base_object b) children)"
    unfolding get_api_hierarchy_base_def assms all
    by (simp add: base_object_def js_get_def)
  with rel show ?thesis by blast
qed

text \<open>
  The plant's base: workshop Assembly with one machine, workshop Press with two. With 101
  machines in workshop Press its node has 100 children.
\<close>

theorem base_hierarchy_first_hundred_witness:
  "children_counts (get_api_hierarchy_base db_plant 1) = [1, 2]
   \<and> length (workshop_equipment db_crowded 1) = 101
   \<and> children_counts (get_api_hierarchy_base db_crowded 1) = [0, 100]
   \<and> (\<exists>children.
           get_api_hierarchy_base db_plant 1 =
             Ok200 (TreeNode (JNum (bases_baseId (the (getBase db_plant 1))))
                      (JStr (bases_baseName (the (getBase db_plant 1)))) BaseNode
                      (base_object (the (getBase db_plant 1))) children)
         \<and> list_all2
             (\<lambda>w n. length (node_children n) \<le> 100
                  \<and> (workshops_workshopId w \<noteq> 0 \<longrightarrow>
                       node_children n =
                         map equipment_leaf (map select_equipment_row
                           (take 100 (workshop_equipment db_plant (workshops_workshopId w))))))
             (getWorkshops db_plant (Some 1)) children)"
proof (intro conjI)
  show "children_counts (get_api_hierarchy_base db_plant 1) = [1, 2]" by code_simp
  show "length (workshop_equipment db_crowded 1) = 101" by code_simp
  show "children_counts (get_api_hierarchy_base db_crowded 1) = [0, 100]" by code_simp
  have "getBase db_plant 1 = Some (the (getBase db_plant 1))" by code_simp
  then show "\<exists>children.
           get_api_hierarchy_base db_plant 1 =
             Ok200 (TreeNode (JNum (bases_baseId (the (getBase db_plant 1))))
                      (JStr (bases_baseName (the (getBase db_plant 1)))) BaseNode
                      (base_object (the (getBase db_plant 1))) children)
         \<and> list_all2
             (\<lambda>w n. length (node_children n) \<le> 100
                  \<and> (workshops_workshopId w \<noteq> 0 \<longrightarrow>
                       node_children n =
                         map equipment_leaf (map select_equipment_row
                           (take 100 (workshop_equipment db_plant (workshops_workshopId w))))))
             (getWorkshops db_plant (Some 1)) children"
    by (rule base_hierarchy_first_hundred)
qed

section \<open>Creating a spare part\<close>



lemma id_stored_iff:
  "spareParts_seq db \<in> set (map spareParts_sparePartId (spareParts db)) \<longleftrightarrow>
   (\<exists>s \<in> set (spareParts db). spareParts_sparePartId s = spareParts_seq db)"
  by (simp only: set_map image_iff) (rule bex_cong [OF refl], rule eq_commute)



text \<open>
  The application stores a spare part only through this insert, which takes the id from
  the sequence; so the ids of the stored parts stay below the next value of the sequence,
  and that value is then not a stored id.
\<close>

lemma ids_drawn_next_id:
  "ids_drawn db \<Longrightarrow> spareParts_seq db \<notin> set (map spareParts_sparePartId (spareParts db))"
  unfolding id_stored_iff by (auto simp: ids_drawn_def list_all_iff)

lemma ids_drawn_createSparePart:
  assumes "ids_drawn db"
  shows "ids_drawn (fst (createSparePart db now d))"
proof -
  from assms have below: "\<forall>s \<in> set (spareParts db). spareParts_sparePartId s < spareParts_seq db"
    by (simp add: ids_drawn_def list_all_iff)
  then have "\<forall>s \<in> set (spareParts db). spareParts_sparePartId s < spareParts_seq db + 1"
    by auto
  with below show ?thesis
    unfolding createSparePart_def Let_def ids_drawn_def list_all_iff by simp
qed

lemma ids_drawn_post_api_spare_parts:
  assumes "ids_drawn db"
  shows "ids_drawn (fst (post_api_spare_parts db now body))"
proof (cases "insertSparePartSchema_parse body")
  case None
  with assms show ?thesis by (simp add: post_api_spare_parts_def)
next
  case (Some d)
  show ?thesis
  proof (cases "getSparePartByMaterialCode db (isp_materialCode d)")
    case (Some existing)
    with \<open>insertSparePartSchema_parse body = Some d\<close> assms show ?thesis
      by (simp add: post_api_spare_parts_def)
  next
    case None
    have "fst (post_api_spare_parts db now body) = fst (createSparePart db now d)"
      using None \<open>insertSparePartSchema_parse body = Some d\<close>
      by (simp add: post_api_spare_parts_def split: prod.splits sum.splits)
    with ids_drawn_createSparePart [OF assms] show ?thesis by simp
  qed
qed




section \<open>The grouping loop\<close>

lemma map_push_keys: "map fst (map_push m k x) = map fst m"
  by (induction m k x rule: map_push.induct) auto

lemma map_of_map_push:
  "map_of (map_push m k x) k' =
     (if k' = k then map_option (\<lambda>v. (fst v, snd v @ [x])) (map_of m k) else map_of m k')"
  by (induction m k x rule: map_push.induct) auto

lemma pairs_for_snoc:
  "pairs_for db c (rows @ [r]) =
   pairs_for db c rows @
     (if ar_componentId r = c then [(the (getSparePart db (ar_sparePartId r)), r)] else [])"
  by (simp add: pairs_for_def)

lemma pairs_for_fresh: "c \<notin> ar_componentId ` set rows \<Longrightarrow> pairs_for db c rows = []"
  by (auto simp: pairs_for_def filter_empty_conv)

lemma grouped_step:
  assumes inv: "grouped db rows m"
      and cmpt: "getComponent db (ar_componentId r) = Some cmpt"
      and part: "getSparePart db (ar_sparePartId r) = Some sp"
  shows "grouped db (rows @ [r]) (group_step db m r)"
proof (cases "ar_componentId r \<in> ar_componentId ` set rows")
  case True
  with inv have has: "map_has m (ar_componentId r)"
    by (simp add: grouped_def map_has_def)
  then have step: "group_step db m r = map_push m (ar_componentId r) (sp, r)"
    by (simp add: group_step_def part)
  show ?thesis
    unfolding grouped_def step
  proof (intro conjI allI)
    show "distinct (map fst (map_push m (ar_componentId r) (sp, r)))"
      using inv by (simp add: map_push_keys grouped_def)
    fix c
    show "map_of (map_push m (ar_componentId r) (sp, r)) c =
          (if c \<in> ar_componentId ` set (rows @ [r])
           then Some (the (getComponent db c), pairs_for db c (rows @ [r])) else None)"
      using inv True
      by (auto simp: map_of_map_push grouped_def pairs_for_snoc part)
  qed
next
  case False
  with inv have nohas: "\<not> map_has m (ar_componentId r)"
    by (simp add: grouped_def map_has_def)
  then have fresh: "ar_componentId r \<notin> fst ` set m"
    by (simp add: map_has_def map_of_eq_None_iff)
  have has': "map_has (m @ [(ar_componentId r, (cmpt, []))]) (ar_componentId r)"
    by (simp add: map_has_def map_add_def split: option.splits)
  have step: "group_step db m r =
      map_push (m @ [(ar_componentId r, (cmpt, []))]) (ar_componentId r) (sp, r)"
    using nohas has' by (simp add: group_step_def cmpt part)
  show ?thesis
    unfolding grouped_def step
  proof (intro conjI allI)
    show "distinct (map fst (map_push (m @ [(ar_componentId r, (cmpt, []))]) (ar_componentId r) (sp, r)))"
      using inv fresh by (simp add: map_push_keys grouped_def)
    fix c
    show "map_of (map_push (m @ [(ar_componentId r, (cmpt, []))]) (ar_componentId r) (sp, r)) c =
          (if c \<in> ar_componentId ` set (rows @ [r])
           then Some (the (getComponent db c), pairs_for db c (rows @ [r])) else None)"
    proof (cases "c = ar_componentId r")
      case True
      have "map_of m (ar_componentId r) = None"
        using fresh by (simp add: map_of_eq_None_iff)
      then show ?thesis
        using True False
        by (simp add: map_of_map_push map_add_def pairs_for_snoc pairs_for_fresh cmpt part)
    next
      case ne: False
      have "map_of (m @ [(ar_componentId r, (cmpt, []))]) c = map_of m c"
        using ne by (simp add: map_add_def split: option.splits)
      then show ?thesis
        using ne inv by (simp add: map_of_map_push grouped_def pairs_for_snoc)
    qed
  qed
qed

lemma grouped_group_associations:
  assumes "\<forall>r \<in> set rows. getComponent db (ar_componentId r) \<noteq> None
                         \<and> getSparePart db (ar_sparePartId r) \<noteq> None"
  shows "grouped db rows (group_associations db rows)"
  using assms
proof (induction rows rule: rev_induct)
  case Nil
  then show ?case by (simp add: grouped_def group_associations_def)
next
  case (snoc r rows)
  then have inv: "grouped db rows (group_associations db rows)" by simp
  from snoc.prems obtain cmpt sp where
    "getComponent db (ar_componentId r) = Some cmpt" "getSparePart db (ar_sparePartId r) = Some sp"
    by auto
  from grouped_step [OF inv this] show ?case
    by (simp add: group_associations_def)
qed

lemma grouped_entry:
  assumes "grouped db rows m" "entry \<in> set m"
  shows "fst entry \<in> ar_componentId ` set rows"
    and "snd entry = (the (getComponent db (fst entry)), pairs_for db (fst entry) rows)"
proof -
  from assms(1) have "distinct (map fst m)" by (simp add: grouped_def)
  with assms(2) have "map_of m (fst entry) = Some (snd entry)"
    by (metis map_of_eq_Some_iff prod.collapse)
  with assms(1) show "fst entry \<in> ar_componentId ` set rows"
    and "snd entry = (the (getComponent db (fst entry)), pairs_for db (fst entry) rows)"
    by (auto simp: grouped_def split: if_splits)
qed

lemma grouped_keys:
  assumes "grouped db rows m"
  shows "set (map fst m) = ar_componentId ` set rows" and "length m = card (ar_componentId ` set rows)"
proof -
  have "fst ` set m = dom (map_of m)" by (simp add: dom_map_of_conv_image_fst)
  also have "\<dots> = ar_componentId ` set rows"
    using assms by (auto simp: grouped_def dom_def)
  finally show keys: "set (map fst m) = ar_componentId ` set rows" by simp
  from assms have "distinct (map fst m)" by (simp add: grouped_def)
  then have "card (set (map fst m)) = length (map fst m)" by (rule distinct_card)
  with keys show "length m = card (ar_componentId ` set rows)" by simp
qed

section \<open>The joins of the association query\<close>

lemma unique_match:
  assumes "distinct (map key ys)" "k \<in> key ` set ys"
  shows "\<exists>y. filter (\<lambda>z. key z = k) ys = [y] \<and> key y = k"
  using assms
proof (induction ys)
  case Nil
  then show ?case by simp
next
  case (Cons y ys)
  show ?case
  proof (cases "key y = k")
    case True
    from Cons.prems have "key y \<notin> key ` set ys" by simp
    with True have "\<forall>z \<in> set ys. key z \<noteq> k" by (metis imageI)
    then have "filter (\<lambda>z. key z = k) ys = []" by (simp add: filter_empty_conv)
    with True show ?thesis by simp
  next
    case False
    with Cons show ?thesis by auto
  qed
qed

lemma first_row_unique:
  assumes "distinct (map key ys)" "k \<in> key ` set ys"
  shows "filter (\<lambda>z. key z = k) ys = [the (first_row (filter (\<lambda>z. key z = k) ys))]"
    and "key (the (first_row (filter (\<lambda>z. key z = k) ys))) = k"
    and "first_row (filter (\<lambda>z. key z = k) ys) \<noteq> None"
proof -
  from unique_match [OF assms] obtain y where "filter (\<lambda>z. key z = k) ys = [y]" "key y = k"
    by blast
  then show "filter (\<lambda>z. key z = k) ys = [the (first_row (filter (\<lambda>z. key z = k) ys))]"
    and "key (the (first_row (filter (\<lambda>z. key z = k) ys))) = k"
    and "first_row (filter (\<lambda>z. key z = k) ys) \<noteq> None"
    by (simp_all add: first_row_def)
qed

lemma innerJoin_lookup:
  assumes "\<forall>x \<in> set xs. filter (on x) ys = [f x]"
  shows "innerJoin xs ys on = map (\<lambda>x. (x, f x)) xs"
  using assms unfolding innerJoin_def by (induction xs) auto

lemma lookups:
  assumes "schema_constraints db" "a \<in> set (equipmentComponentSpareParts db)"
  shows "filter (\<lambda>e. ecsp_equipmentId a = equipment_equipmentId e) (equipment db)
           = [the (getEquipment db (ecsp_equipmentId a))]"
    and "filter (\<lambda>c. ecsp_componentId a = components_componentId c) (components db)
           = [the (getComponent db (ecsp_componentId a))]"
    and "filter (\<lambda>s. ecsp_sparePartId a = spareParts_sparePartId s) (spareParts db)
           = [the (getSparePart db (ecsp_sparePartId a))]"
    and "spareParts_sparePartId (the (getSparePart db (ecsp_sparePartId a))) = ecsp_sparePartId a"
    and "components_componentId (the (getComponent db (ecsp_componentId a))) = ecsp_componentId a"
    and "getComponent db (ecsp_componentId a) \<noteq> None"
    and "getSparePart db (ecsp_sparePartId a) \<noteq> None"
proof -
  from assms have d: "distinct (map equipment_equipmentId (equipment db))"
      "distinct (map components_componentId (components db))"
      "distinct (map spareParts_sparePartId (spareParts db))"
    and k: "ecsp_equipmentId a \<in> equipment_equipmentId ` set (equipment db)"
      "ecsp_componentId a \<in> components_componentId ` set (components db)"
      "ecsp_sparePartId a \<in> spareParts_sparePartId ` set (spareParts db)"
    by (simp_all add: schema_constraints_def list_all_iff)
  have e: "filter (\<lambda>e. ecsp_equipmentId a = equipment_equipmentId e) (equipment db)
           = filter (\<lambda>e. equipment_equipmentId e = ecsp_equipmentId a) (equipment db)"
    by (rule filter_cong) auto
  have c: "filter (\<lambda>c. ecsp_componentId a = components_componentId c) (components db)
           = filter (\<lambda>c. components_componentId c = ecsp_componentId a) (components db)"
    by (rule filter_cong) auto
  have s: "filter (\<lambda>s. ecsp_sparePartId a = spareParts_sparePartId s) (spareParts db)
           = filter (\<lambda>s. spareParts_sparePartId s = ecsp_sparePartId a) (spareParts db)"
    by (rule filter_cong) auto
  show "filter (\<lambda>e. ecsp_equipmentId a = equipment_equipmentId e) (equipment db)
           = [the (getEquipment db (ecsp_equipmentId a))]"
    unfolding e getEquipment_def sql_where_def sql_eq_def
    using first_row_unique(1) [OF d(1) k(1)] by simp
  show "filter (\<lambda>c. ecsp_componentId a = components_componentId c) (components db)
           = [the (getComponent db (ecsp_componentId a))]"
    unfolding c getComponent_def sql_where_def sql_eq_def
    using first_row_unique(1) [OF d(2) k(2)] by simp
  show "filter (\<lambda>s. ecsp_sparePartId a = spareParts_sparePartId s) (spareParts db)
           = [the (getSparePart db (ecsp_sparePartId a))]"
    unfolding s getSparePart_def sql_where_def sql_eq_def
    using first_row_unique(1) [OF d(3) k(3)] by simp
  show "spareParts_sparePartId (the (getSparePart db (ecsp_sparePartId a))) = ecsp_sparePartId a"
    unfolding getSparePart_def sql_where_def sql_eq_def
    using first_row_unique(2) [OF d(3) k(3)] by simp
  show "components_componentId (the (getComponent db (ecsp_componentId a))) = ecsp_componentId a"
    unfolding getComponent_def sql_where_def sql_eq_def
    using first_row_unique(2) [OF d(2) k(2)] by simp
  show "getComponent db (ecsp_componentId a) \<noteq> None"
    unfolding getComponent_def sql_where_def sql_eq_def
    using first_row_unique(3) [OF d(2) k(2)] by simp
  show "getSparePart db (ecsp_sparePartId a) \<noteq> None"
    unfolding getSparePart_def sql_where_def sql_eq_def
    using first_row_unique(3) [OF d(3) k(3)] by simp
qed

lemma inner_joins:
  assumes "schema_constraints db"
  shows "innerJoin
          (innerJoin
             (innerJoin (equipmentComponentSpareParts db) (equipment db)
                (\<lambda>a e. ecsp_equipmentId a = equipment_equipmentId e))
             (components db)
             (\<lambda>ae c. ecsp_componentId (fst ae) = components_componentId c))
          (spareParts db)
          (\<lambda>aec s. ecsp_sparePartId (fst (fst aec)) = spareParts_sparePartId s)
       = map (joined_base db) (equipmentComponentSpareParts db)"
proof -
  let ?as = "equipmentComponentSpareParts db"
  have 1: "innerJoin ?as (equipment db) (\<lambda>a e. ecsp_equipmentId a = equipment_equipmentId e)
           = map (\<lambda>a. (a, the (getEquipment db (ecsp_equipmentId a)))) ?as"
    by (rule innerJoin_lookup) (simp add: lookups(1) [OF assms])
  have 2: "innerJoin (map (\<lambda>a. (a, the (getEquipment db (ecsp_equipmentId a)))) ?as) (components db)
             (\<lambda>ae c. ecsp_componentId (fst ae) = components_componentId c)
           = map (\<lambda>ae. (ae, the (getComponent db (ecsp_componentId (fst ae)))))
               (map (\<lambda>a. (a, the (getEquipment db (ecsp_equipmentId a)))) ?as)"
    by (rule innerJoin_lookup) (auto simp: lookups(2) [OF assms])
  have 3: "innerJoin
             (map (\<lambda>ae. (ae, the (getComponent db (ecsp_componentId (fst ae)))))
               (map (\<lambda>a. (a, the (getEquipment db (ecsp_equipmentId a)))) ?as))
             (spareParts db)
             (\<lambda>aec s. ecsp_sparePartId (fst (fst aec)) = spareParts_sparePartId s)
           = map (\<lambda>aec. (aec, the (getSparePart db (ecsp_sparePartId (fst (fst aec))))))
               (map (\<lambda>ae. (ae, the (getComponent db (ecsp_componentId (fst ae)))))
                 (map (\<lambda>a. (a, the (getEquipment db (ecsp_equipmentId a)))) ?as))"
    by (rule innerJoin_lookup) (auto simp: lookups(3) [OF assms])
  show ?thesis
    unfolding 1 2 3 by (simp add: joined_base_def comp_def)
qed

lemma association_joined_rows:
  assumes "schema_constraints db"
  shows "association_joined db = concat (map (joined_rows_of db) (equipmentComponentSpareParts db))"
proof -
  have row: "(case filter (\<lambda>u. spareParts_sparePartId (snd (joined_base db a))
                           = sparePartSuppliers_sparePartId u) (sparePartSuppliers db) of
           [] \<Rightarrow> [(joined_base db a, None)]
         | m # ms \<Rightarrow> map (\<lambda>y. (joined_base db a, Some y)) (m # ms)) = joined_rows_of db a"
    if "a \<in> set (equipmentComponentSpareParts db)" for a
  proof -
    have "filter (\<lambda>u. spareParts_sparePartId (snd (joined_base db a))
                           = sparePartSuppliers_sparePartId u) (sparePartSuppliers db)
          = suppliers_of db (ecsp_sparePartId a)"
      unfolding suppliers_of_def
      by (rule filter_cong) (auto simp: joined_base_def lookups(4) [OF assms that])
    then show ?thesis by (simp only: joined_rows_of_def)
  qed
  have "leftJoin (map (joined_base db) (equipmentComponentSpareParts db)) (sparePartSuppliers db)
          (\<lambda>aecs u. spareParts_sparePartId (snd aecs) = sparePartSuppliers_sparePartId u)
        = concat (map (joined_rows_of db) (equipmentComponentSpareParts db))"
    unfolding leftJoin_def map_map comp_def
    by (rule arg_cong [of _ _ concat], rule map_cong) (simp_all add: row)
  then show ?thesis
    unfolding association_joined_def inner_joins [OF assms] .
qed

lemma select_ignores_supplier:
  "select_association_row (x, s) = select_association_row (x, None)"
  by (simp add: select_association_row_def aj_ecsp_def aj_equipment_def aj_components_def
        aj_spareParts_def)

lemma select_joined_rows_of:
  "map select_association_row (joined_rows_of db a) = replicate (copies db a) (assoc_row db a)"
proof (cases "suppliers_of db (ecsp_sparePartId a)")
  case Nil
  then show ?thesis by (simp add: joined_rows_of_def copies_def assoc_row_def)
next
  case (Cons u us)
  have "map select_association_row (map (\<lambda>y. (joined_base db a, Some y)) (u # us))
        = map (\<lambda>y. assoc_row db a) (u # us)"
    unfolding map_map comp_def assoc_row_def
    by (rule map_cong) (simp_all add: select_ignores_supplier [of _ "Some _"])
  also have "\<dots> = replicate (length (u # us)) (assoc_row db a)"
    by (simp only: map_replicate_const)
  finally show ?thesis using Cons by (simp add: joined_rows_of_def copies_def)
qed

lemma aj_ecsp_joined_rows_of: "j \<in> set (joined_rows_of db a) \<Longrightarrow> aj_ecsp j = a"
  by (auto simp: joined_rows_of_def joined_base_def aj_ecsp_def split: list.splits)

lemma filter_concat_uniform:
  assumes "\<forall>x \<in> set xs. \<forall>j \<in> set (g x). P j = Q x"
  shows "filter P (concat (map g xs)) = concat (map g (filter Q xs))"
  using assms
proof (induction xs)
  case Nil
  then show ?case by simp
next
  case (Cons x xs)
  then have "filter P (g x) = (if Q x then g x else [])"
    by (auto simp: filter_empty_conv filter_id_conv)
  with Cons show ?case by simp
qed

lemma joined_filter_by_association:
  assumes "schema_constraints db"
  shows "filter (\<lambda>j. Q (aj_ecsp j)) (association_joined db) =
         concat (map (joined_rows_of db) (filter Q (equipmentComponentSpareParts db)))"
  unfolding association_joined_rows [OF assms]
  by (rule filter_concat_uniform) (simp add: aj_ecsp_joined_rows_of)

lemma concat_replicate_rows:
  "map select_association_row (concat (map (joined_rows_of db) xs)) =
   concat (map (\<lambda>x. replicate (copies db x) (assoc_row db x)) xs)"
  by (induction xs) (simp_all add: select_joined_rows_of)

lemma association_rows_mset:
  assumes "schema_constraints db"
  shows "mset (map select_association_row
                 (orderBy association_order (filter (\<lambda>j. Q (aj_ecsp j)) (association_joined db)))) =
         mset (concat (map (\<lambda>x. replicate (copies db x) (assoc_row db x))
                 (filter Q (equipmentComponentSpareParts db))))"
proof -
  have "mset (map select_association_row
                 (orderBy association_order (filter (\<lambda>j. Q (aj_ecsp j)) (association_joined db)))) =
        mset (map select_association_row (filter (\<lambda>j. Q (aj_ecsp j)) (association_joined db)))"
    by (simp only: mset_map mset_orderBy)
  then show ?thesis
    by (simp only: joined_filter_by_association [OF assms] concat_replicate_rows)
qed

lemma getAssociations_all:
  "getAssociations db no_association_params =
   Inr (map select_association_row (orderBy association_order (association_joined db)))"
  by (simp add: getAssociations_def associations_query_def association_conditions_def
        no_association_params_def truthy_num_def truthy_str_def where_conditions_def)

lemma getAssociations_equipment:
  assumes "e \<noteq> 0"
  shows "getAssociations db (no_association_params\<lparr>ap_equipmentId := Some e\<rparr>) =
         Inr (map select_association_row
                (orderBy association_order
                   (filter (\<lambda>j. ecsp_equipmentId (aj_ecsp j) = e) (association_joined db))))"
  using assms
  by (simp add: getAssociations_def associations_query_def association_conditions_def
        no_association_params_def truthy_num_def truthy_str_def where_conditions_filter sql_eq_def)

lemma count_concat_replicate:
  "length (filter P (concat (map (\<lambda>x. replicate (n x) (f x)) xs))) =
   sum_list (map n (filter (\<lambda>x. P (f x)) xs))"
  by (induction xs) simp_all

lemma filter_unique_key:
  assumes "distinct (map key xs)" "a \<in> set xs"
  shows "filter (\<lambda>x. key x = key a) xs = [a]"
proof -
  from unique_match [OF assms(1), of "key a"] assms(2)
  obtain y where y: "filter (\<lambda>z. key z = key a) xs = [y]" by blast
  from assms(2) have "a \<in> set (filter (\<lambda>z. key z = key a) xs)" by simp
  with y show ?thesis by simp
qed

lemma assoc_row_fields:
  "ar_id (assoc_row db a) = ecsp_id a"
  "ar_componentId (assoc_row db a) = ecsp_componentId a"
  "ar_sparePartId (assoc_row db a) = ecsp_sparePartId a"
  "ar_equipmentId (assoc_row db a) = ecsp_equipmentId a"
  "ar_quantity (assoc_row db a) = ecsp_quantity a"
  "ar_importanceLevel (assoc_row db a) =
     components_importanceLevel (the (getComponent db (ecsp_componentId a)))"
  by (simp_all add: assoc_row_def select_association_row_def joined_base_def aj_ecsp_def
        aj_components_def)

lemma copies_many:
  "1 < length (suppliers_of db (ecsp_sparePartId a)) \<Longrightarrow>
   copies db a = length (suppliers_of db (ecsp_sparePartId a))"
  by (cases "suppliers_of db (ecsp_sparePartId a)") (simp_all add: copies_def)

lemma copies_pos: "0 < copies db x"
  by (simp add: copies_def split: list.splits)

lemma copies_single:
  "length (suppliers_of db (ecsp_sparePartId a)) \<le> 1 \<Longrightarrow> copies db a = 1"
  by (cases "suppliers_of db (ecsp_sparePartId a)") (simp_all add: copies_def)

lemma one_row_per_supplier:
  assumes "schema_constraints db" "a \<in> set (equipmentComponentSpareParts db)"
  shows "\<exists>rows. getAssociations db no_association_params = Inr rows
            \<and> length (filter (\<lambda>r. ar_id r = ecsp_id a) rows) = copies db a"
proof -
  define rows where
    "rows = map select_association_row (orderBy association_order (association_joined db))"
  have "mset rows = mset (concat (map (\<lambda>x. replicate (copies db x) (assoc_row db x))
                 (equipmentComponentSpareParts db)))"
    unfolding rows_def
    using association_rows_mset [OF assms(1), of "\<lambda>_. True"] by simp
  then have "length (filter (\<lambda>r. ar_id r = ecsp_id a) rows) =
      length (filter (\<lambda>r. ar_id r = ecsp_id a)
        (concat (map (\<lambda>x. replicate (copies db x) (assoc_row db x))
                 (equipmentComponentSpareParts db))))"
    by (rule length_filter_mset_eq)
  also have "\<dots> = sum_list (map (copies db)
      (filter (\<lambda>x. ecsp_id x = ecsp_id a) (equipmentComponentSpareParts db)))"
    by (simp only: count_concat_replicate assoc_row_fields)
  also have "\<dots> = copies db a"
    using filter_unique_key [of ecsp_id "equipmentComponentSpareParts db" a] assms
    by (simp add: schema_constraints_def)
  finally show ?thesis
    using getAssociations_all [of db] by (simp add: rows_def)
qed

section \<open>The equipment hierarchy\<close>

lemma js_get_set: "js_get (js_set obj k v) k' = (if k' = k then v else js_get obj k')"
  by (induction obj k v rule: js_set.induct) (auto simp: js_get_def)

lemma first_row_filter_Some:
  assumes "first_row (filter P xs) = Some y"
  shows "P y"
proof -
  from assms have "y \<in> set (filter P xs)"
    by (cases "filter P xs") (simp_all add: first_row_def)
  then show ?thesis by simp
qed

lemma getEquipment_id: "getEquipment db e = Some eq \<Longrightarrow> equipment_equipmentId eq = e"
  unfolding getEquipment_def sql_where_def sql_eq_def
  by (drule first_row_filter_Some) simp

lemma getEquipment_referenced:
  assumes "schema_constraints db" "a \<in> set (equipmentComponentSpareParts db)"
  shows "getEquipment db (ecsp_equipmentId a) \<noteq> None"
proof -
  from assms have "distinct (map equipment_equipmentId (equipment db))"
    and "ecsp_equipmentId a \<in> equipment_equipmentId ` set (equipment db)"
    by (simp_all add: schema_constraints_def list_all_iff)
  from first_row_unique(3) [OF this] show ?thesis
    by (simp add: getEquipment_def sql_where_def sql_eq_def)
qed

lemma sparePart_node_fields:
  "node_id (sparePart_node (sp, r)) = JNum (spareParts_sparePartId sp)"
  "node_name (sparePart_node (sp, r)) = JUndefined"
  "node_children (sparePart_node (sp, r)) = []"
  "js_get (node_data (sparePart_node (sp, r))) ''quantity'' = nullable JNum (ar_quantity r)"
  "js_get (node_data (sparePart_node (sp, r))) ''importanceLevel'' =
     JStr (importance_level_label (ar_importanceLevel r))"
  "js_get (node_data (sparePart_node (sp, r))) ''supplyCycle'' = JUndefined"
  by (simp_all add: sparePart_node_def Let_def js_get_set)
     (simp_all add: sparePart_object_def association_row_object_def js_get_def)

lemma component_node_fields:
  "node_id (component_node (c, (cm, sps))) = JNum c"
  "node_children (component_node (c, (cm, sps))) = map sparePart_node sps"
  by (simp_all add: component_node_def Let_def)

lemma component_node_children_list:
  "node_children (component_node entry) = map sparePart_node (snd (snd entry))"
  by (simp add: component_node_def Let_def)

lemma set_equipment_rows_model:
  "set (equipment_rows_model db e) = assoc_row db ` set (associations_of db e)"
  using copies_pos by (auto simp: equipment_rows_model_def)

lemma hierarchy_tree:
  assumes c: "schema_constraints db" and e: "e \<noteq> 0" and eq: "getEquipment db e = Some eq"
  obtains rows where
    "mset rows = mset (equipment_rows_model db e)"
    "grouped db rows (group_associations db rows)"
    "get_api_hierarchy_equipment db e =
       Ok200 (TreeNode (JNum e) (JStr (equipment_equipmentName eq)) EquipmentNode
                (equipment_object eq) (map component_node (group_associations db rows)))"
proof -
  define rows where "rows = map select_association_row
        (orderBy association_order
           (filter (\<lambda>j. ecsp_equipmentId (aj_ecsp j) = e) (association_joined db)))"
  have q: "getAssociations db (no_association_params\<lparr>ap_equipmentId := Some e\<rparr>) = Inr rows"
    unfolding rows_def by (rule getAssociations_equipment [OF e])
  have m: "mset rows = mset (equipment_rows_model db e)"
    unfolding rows_def equipment_rows_model_def associations_of_def
    by (rule association_rows_mset [OF c])
  then have s: "set rows = assoc_row db ` set (associations_of db e)"
    by (metis set_mset_mset set_equipment_rows_model)
  have "getComponent db (ar_componentId r) \<noteq> None \<and> getSparePart db (ar_sparePartId r) \<noteq> None"
    if "r \<in> set rows" for r
  proof -
    from that s obtain x where x: "x \<in> set (equipmentComponentSpareParts db)" "r = assoc_row db x"
      by (auto simp: associations_of_def)
    with lookups(6,7) [OF c x(1)] show ?thesis by (simp add: assoc_row_fields)
  qed
  then have g: "grouped db rows (group_associations db rows)"
    by (intro grouped_group_associations) blast
  have t: "get_api_hierarchy_equipment db e =
       Ok200 (TreeNode (JNum e) (JStr (equipment_equipmentName eq)) EquipmentNode
                (equipment_object eq) (map component_node (group_associations db rows)))"
    unfolding get_api_hierarchy_equipment_def eq q
    using getEquipment_id [OF eq] by (simp add: equipment_object_def js_get_def)
  from m g t show ?thesis by (rule that)
qed

lemma grouped_children:
  assumes "grouped db rows m" "cn \<in> set (map component_node m)"
  obtains c where "c \<in> ar_componentId ` set rows" "node_id cn = JNum c"
    "node_children cn = map sparePart_node (pairs_for db c rows)"
proof -
  from assms(2) obtain entry where entry: "entry \<in> set m" "cn = component_node entry" by auto
  from grouped_entry [OF assms(1) entry(1)]
  have "fst entry \<in> ar_componentId ` set rows"
    and "entry = (fst entry, (the (getComponent db (fst entry)), pairs_for db (fst entry) rows))"
    by (simp_all add: prod_eq_iff)
  with entry(2) component_node_fields [of "fst entry" "the (getComponent db (fst entry))"
      "pairs_for db (fst entry) rows"]
  show ?thesis by (intro that [of "fst entry"]) simp_all
qed

lemma grouped_child_exists:
  assumes "grouped db rows m" "c \<in> ar_componentId ` set rows"
  obtains cn where "cn \<in> set (map component_node m)" "node_id cn = JNum c"
    "node_children cn = map sparePart_node (pairs_for db c rows)"
proof -
  from assms have "map_of m c = Some (the (getComponent db c), pairs_for db c rows)"
    by (simp add: grouped_def)
  then have "(c, (the (getComponent db c), pairs_for db c rows)) \<in> set m"
    by (rule map_of_SomeD)
  then have "component_node (c, (the (getComponent db c), pairs_for db c rows))
             \<in> set (map component_node m)"
    by simp
  then show ?thesis
    by (rule that) (simp_all add: component_node_fields)
qed

lemma children_with_id:
  "length (filter (\<lambda>s. node_id s = JNum k) (map sparePart_node (pairs_for db c rows))) =
   length (filter (\<lambda>r. ar_componentId r = c
              \<and> spareParts_sparePartId (the (getSparePart db (ar_sparePartId r))) = k) rows)"
  by (induction rows) (simp_all add: pairs_for_def sparePart_node_fields)

text \<open>
  C5. In every 200 answer of the equipment hierarchy each spare-part node has the name
  \<open>undefined\<close> and the \<open>supplyCycle\<close> \<open>undefined\<close> in its data: a spare-part row has no
  property \<open>sparePartName\<close> and an association row has no property \<open>supplyCycle\<close>.
\<close>

theorem spare_part_nodes_undefined_fields:
  assumes "get_api_hierarchy_equipment db equipmentId = Ok200 t"
  shows "list_all
           (\<lambda>cn. list_all
              (\<lambda>sn. node_name sn = JUndefined \<and> js_get (node_data sn) ''supplyCycle'' = JUndefined)
              (node_children cn))
           (node_children t)
       \<and> map_of (sparePart_object sparePart) ''sparePartName'' = None
       \<and> map_of (association_row_object association) ''supplyCycle'' = None"
proof (intro conjI)
  from assms obtain m where t: "node_children t = map component_node m"
    by (auto simp: get_api_hierarchy_equipment_def Let_def split: option.splits sum.splits)
  have "list_all (\<lambda>sn. node_name sn = JUndefined \<and> js_get (node_data sn) ''supplyCycle'' = JUndefined)
          (node_children (component_node entry))" for entry
    unfolding component_node_children_list list_all_iff
    by (auto simp: sparePart_node_fields)
  then show "list_all
           (\<lambda>cn. list_all
              (\<lambda>sn. node_name sn = JUndefined \<and> js_get (node_data sn) ''supplyCycle'' = JUndefined)
              (node_children cn))
           (node_children t)"
    unfolding t list_all_iff by auto
  show "map_of (sparePart_object sparePart) ''sparePartName'' = None"
    by (simp add: sparePart_object_def)
  show "map_of (association_row_object association) ''supplyCycle'' = None"
    by (simp add: association_row_object_def)
qed

text \<open>The hierarchy of machine 1 of the plant.\<close>

theorem spare_part_nodes_undefined_fields_witness:
  "list_all
     (\<lambda>cn. list_all
        (\<lambda>sn. node_name sn = JUndefined \<and> js_get (node_data sn) ''supplyCycle'' = JUndefined)
        (node_children cn))
     (node_children (the (response_body (get_api_hierarchy_equipment db_plant 1))))
   \<and> map_of (sparePart_object (the (getSparePart db_plant 1))) ''sparePartName'' = None
   \<and> map_of (association_row_object (select_association_row (hd (association_joined db_plant))))
        ''supplyCycle'' = None"
proof -
  have "get_api_hierarchy_equipment db_plant 1 =
        Ok200 (the (response_body (get_api_hierarchy_equipment db_plant 1)))"
    by code_simp
  then show ?thesis by (rule spare_part_nodes_undefined_fields)
qed

text \<open>
  C8. Under the schema's key constraints, for an association whose spare part has
  \<open>n > 1\<close> suppliers, \<open>getAssociations\<close> and \<open>GET /api/associations\<close> without filters
  return \<open>n\<close> rows with the association's id, and (for a non-zero equipment id) the
  equipment hierarchy lists the spare part at least \<open>n\<close> times under the association's
  component.
\<close>

theorem association_rows_per_supplier:
  assumes c: "schema_constraints db"
      and a: "a \<in> set (equipmentComponentSpareParts db)"
      and n: "1 < length (suppliers_of db (ecsp_sparePartId a))"
  shows "(\<exists>rows. getAssociations db no_association_params = Inr rows
            \<and> get_api_associations db no_associations_query = Ok200 rows
            \<and> length (filter (\<lambda>r. ar_id r = ecsp_id a) rows)
                = length (suppliers_of db (ecsp_sparePartId a)))
       \<and> (ecsp_equipmentId a = 0
          \<or> (\<exists>t cn. get_api_hierarchy_equipment db (ecsp_equipmentId a) = Ok200 t
                \<and> cn \<in> set (node_children t)
                \<and> node_id cn = JNum (ecsp_componentId a)
                \<and> length (suppliers_of db (ecsp_sparePartId a))
                    \<le> length (filter (\<lambda>s. node_id s = JNum (ecsp_sparePartId a))
                                (node_children cn))))"
proof (rule conjI)
  from one_row_per_supplier [OF c a] obtain rows where
    rows: "getAssociations db no_association_params = Inr rows"
      "length (filter (\<lambda>r. ar_id r = ecsp_id a) rows) = copies db a"
    by blast
  have "association_params no_associations_query = no_association_params"
    by (simp add: association_params_def no_associations_query_def no_association_params_def
          truthy_str_def)
  then have "get_api_associations db no_associations_query = Ok200 rows"
    by (simp add: get_api_associations_def rows(1))
  with rows copies_many [OF n]
  show "\<exists>rows. getAssociations db no_association_params = Inr rows
            \<and> get_api_associations db no_associations_query = Ok200 rows
            \<and> length (filter (\<lambda>r. ar_id r = ecsp_id a) rows)
                = length (suppliers_of db (ecsp_sparePartId a))"
    by auto
next
  show "ecsp_equipmentId a = 0
          \<or> (\<exists>t cn. get_api_hierarchy_equipment db (ecsp_equipmentId a) = Ok200 t
                \<and> cn \<in> set (node_children t)
                \<and> node_id cn = JNum (ecsp_componentId a)
                \<and> length (suppliers_of db (ecsp_sparePartId a))
                    \<le> length (filter (\<lambda>s. node_id s = JNum (ecsp_sparePartId a))
                                (node_children cn)))"
  proof (cases "ecsp_equipmentId a = 0")
    case True
    then show ?thesis by simp
  next
    case False
    define e where "e = ecsp_equipmentId a"
    from getEquipment_referenced [OF c a] obtain eq where eq: "getEquipment db e = Some eq"
      by (auto simp: e_def)
    from False have e: "e \<noteq> 0" by (simp add: e_def)
    from hierarchy_tree [OF c e eq] obtain rows where
      m: "mset rows = mset (equipment_rows_model db e)"
      and g: "grouped db rows (group_associations db rows)"
      and t: "get_api_hierarchy_equipment db e =
         Ok200 (TreeNode (JNum e) (JStr (equipment_equipmentName eq)) EquipmentNode
                  (equipment_object eq) (map component_node (group_associations db rows)))"
      by blast
    have of_e: "a \<in> set (associations_of db e)"
      using a by (simp add: associations_of_def e_def)
    from m have "set rows = assoc_row db ` set (associations_of db e)"
      by (metis set_mset_mset set_equipment_rows_model)
    with of_e have "ecsp_componentId a \<in> ar_componentId ` set rows"
      by (metis assoc_row_fields(2) imageI)
    from grouped_child_exists [OF g this] obtain cn where
      cn: "cn \<in> set (map component_node (group_associations db rows))"
        "node_id cn = JNum (ecsp_componentId a)"
        "node_children cn = map sparePart_node (pairs_for db (ecsp_componentId a) rows)"
      by blast
    let ?P = "\<lambda>r. ar_componentId r = ecsp_componentId a
              \<and> spareParts_sparePartId (the (getSparePart db (ar_sparePartId r))) = ecsp_sparePartId a"
    have "length (filter (\<lambda>s. node_id s = JNum (ecsp_sparePartId a)) (node_children cn))
          = length (filter ?P rows)"
      unfolding cn(3) by (rule children_with_id)
    also have "\<dots> = length (filter ?P (equipment_rows_model db e))"
      using m by (rule length_filter_mset_eq)
    also have "\<dots> = sum_list (map (copies db) (filter (\<lambda>x. ?P (assoc_row db x)) (associations_of db e)))"
      unfolding equipment_rows_model_def by (rule count_concat_replicate)
    finally have count: "length (filter (\<lambda>s. node_id s = JNum (ecsp_sparePartId a)) (node_children cn))
          = sum_list (map (copies db) (filter (\<lambda>x. ?P (assoc_row db x)) (associations_of db e)))" .
    have "?P (assoc_row db a)"
      using lookups(4) [OF c a] by (simp add: assoc_row_fields)
    with of_e have "a \<in> set (filter (\<lambda>x. ?P (assoc_row db x)) (associations_of db e))"
      by simp
    then have "copies db a \<in> set (map (copies db) (filter (\<lambda>x. ?P (assoc_row db x)) (associations_of db e)))"
      by (simp only: set_map) (rule imageI)
    then have "copies db a \<le> sum_list (map (copies db) (filter (\<lambda>x. ?P (assoc_row db x)) (associations_of db e)))"
      by (rule member_le_sum_list) simp
    with count copies_many [OF n]
    have "length (suppliers_of db (ecsp_sparePartId a))
          \<le> length (filter (\<lambda>s. node_id s = JNum (ecsp_sparePartId a)) (node_children cn))"
      by simp
    with t cn(1,2) show ?thesis
      unfolding e_def [symmetric] by (intro disjI2 exI conjI) (assumption | simp)+
  qed
qed

text \<open>Association 1 of the plant once part 1 has two suppliers.\<close>

theorem association_rows_per_supplier_witness:
  "(\<exists>rows. getAssociations db_second_supplier no_association_params = Inr rows
            \<and> get_api_associations db_second_supplier no_associations_query = Ok200 rows
            \<and> length (filter (\<lambda>r. ar_id r = ecsp_id (hd (equipmentComponentSpareParts db_second_supplier))) rows)
                = length (suppliers_of db_second_supplier
                    (ecsp_sparePartId (hd (equipmentComponentSpareParts db_second_supplier)))))
   \<and> (ecsp_equipmentId (hd (equipmentComponentSpareParts db_second_supplier)) = 0
      \<or> (\<exists>t cn. get_api_hierarchy_equipment db_second_supplier
                  (ecsp_equipmentId (hd (equipmentComponentSpareParts db_second_supplier))) = Ok200 t
            \<and> cn \<in> set (node_children t)
            \<and> node_id cn = JNum (ecsp_componentId (hd (equipmentComponentSpareParts db_second_supplier)))
            \<and> length (suppliers_of db_second_supplier
                 (ecsp_sparePartId (hd (equipmentComponentSpareParts db_second_supplier))))
                \<le> length (filter (\<lambda>s. node_id s = JNum (ecsp_sparePartId (hd (equipmentComponentSpareParts db_second_supplier))))
                            (node_children cn))))"
proof -
  have 1: "schema_constraints db_second_supplier" by code_simp
  have 2: "hd (equipmentComponentSpareParts db_second_supplier)
           \<in> set (equipmentComponentSpareParts db_second_supplier)"
    by code_simp
  have 3: "1 < length (suppliers_of db_second_supplier
                    (ecsp_sparePartId (hd (equipmentComponentSpareParts db_second_supplier))))"
    by code_simp
  show ?thesis by (rule association_rows_per_supplier [OF 1 2 3])
qed

lemma concat_replicate_one:
  assumes "\<forall>x \<in> set xs. n x = Suc 0"
  shows "concat (map (\<lambda>x. replicate (n x) (f x)) xs) = map f xs"
  using assms by (induction xs) simp_all

lemma single_sourced_rows:
  assumes "single_sourced db e"
  shows "equipment_rows_model db e = map (assoc_row db) (associations_of db e)"
  unfolding equipment_rows_model_def
  using assms
  by (intro concat_replicate_one) (simp add: single_sourced_def list_all_iff copies_single)

lemma length_pairs_for:
  "length (pairs_for db c rows) = length (filter (\<lambda>r. ar_componentId r = c) rows)"
  by (simp add: pairs_for_def)

lemma filter_assoc_rows:
  "filter (\<lambda>r. ar_componentId r = c) (map (assoc_row db) xs) =
   map (assoc_row db) (filter (\<lambda>a. ecsp_componentId a = c) xs)"
  by (induction xs) (simp_all add: assoc_row_fields)

lemma sparePart_node_shows:
  assumes c: "schema_constraints db" and a: "a \<in> set (equipmentComponentSpareParts db)"
      and cn: "node_id cn = JNum (ecsp_componentId a)"
  shows "shows_association db a cn
           (sparePart_node (the (getSparePart db (ar_sparePartId (assoc_row db a))), assoc_row db a))"
  using lookups(4) [OF c a] cn
  by (simp add: shows_association_def sparePart_node_fields assoc_row_fields)

text \<open>
  C4, as the code has it. Under the schema's key constraints, for an existing machine
  (with a non-zero id) that has exactly two components, each with exactly two association
  rows naming two distinct spare parts, and whose spare parts have at most one supplier
  each, the hierarchy is answered with 200 and a root with exactly two component
  children, each with exactly two spare-part children; every spare-part node shows the
  spare part and quantity of an association row of its component and the importance level
  of that component, and every association row is shown by some node.
\<close>

theorem equipment_hierarchy_two_by_two:
  assumes c: "schema_constraints db"
      and e: "e \<noteq> 0"
      and eq: "getEquipment db e = Some eq"
      and two: "two_components_two_parts db e"
      and single: "single_sourced db e"
  shows "\<exists>children.
           get_api_hierarchy_equipment db e =
             Ok200 (TreeNode (JNum e) (JStr (equipment_equipmentName eq)) EquipmentNode
                      (equipment_object eq) children)
         \<and> length children = 2
         \<and> list_all
             (\<lambda>cn. length (node_children cn) = 2
                 \<and> list_all (\<lambda>sn. \<exists>a \<in> set (associations_of db e). shows_association db a cn sn)
                     (node_children cn))
             children
         \<and> list_all
             (\<lambda>a. \<exists>cn \<in> set children. \<exists>sn \<in> set (node_children cn). shows_association db a cn sn)
             (associations_of db e)"
proof -
  let ?as = "associations_of db e"
  from hierarchy_tree [OF c e eq] obtain rows where
    m: "mset rows = mset (equipment_rows_model db e)"
    and g: "grouped db rows (group_associations db rows)"
    and t: "get_api_hierarchy_equipment db e =
       Ok200 (TreeNode (JNum e) (JStr (equipment_equipmentName eq)) EquipmentNode
                (equipment_object eq) (map component_node (group_associations db rows)))"
    by blast
  define children where "children = map component_node (group_associations db rows)"
  have m': "mset rows = mset (map (assoc_row db) ?as)"
    using m single_sourced_rows [OF single] by simp
  then have s: "set rows = assoc_row db ` set ?as"
    by (metis set_mset_mset set_map)
  have sub: "set ?as \<subseteq> set (equipmentComponentSpareParts db)"
    by (auto simp: associations_of_def)
  have keys: "ar_componentId ` set rows = set (map ecsp_componentId ?as)"
    unfolding s by (simp add: image_image assoc_row_fields)
  have "length children = card (ar_componentId ` set rows)"
    unfolding children_def using grouped_keys(2) [OF g] by simp
  also have "\<dots> = length (remdups (map ecsp_componentId ?as))"
    unfolding keys by (simp only: length_remdups_card_conv)
  finally have len: "length children = 2"
    using two by (simp add: two_components_two_parts_def)
  have count: "length (filter (\<lambda>r. ar_componentId r = k) rows) =
               length (filter (\<lambda>a. ecsp_componentId a = k) ?as)" for k
  proof -
    have "length (filter (\<lambda>r. ar_componentId r = k) rows) =
          length (filter (\<lambda>r. ar_componentId r = k) (map (assoc_row db) ?as))"
      using m' by (rule length_filter_mset_eq)
    then show ?thesis by (simp only: filter_assoc_rows length_map)
  qed
  have child: "length (node_children cn) = 2
       \<and> list_all (\<lambda>sn. \<exists>a \<in> set ?as. shows_association db a cn sn) (node_children cn)"
    if "cn \<in> set children" for cn
  proof -
    from that obtain k where k: "k \<in> ar_componentId ` set rows" "node_id cn = JNum k"
      "node_children cn = map sparePart_node (pairs_for db k rows)"
      unfolding children_def by (rule grouped_children [OF g])
    from k(1) keys have "k \<in> set (remdups (map ecsp_componentId ?as))" by simp
    with two have "length (filter (\<lambda>a. ecsp_componentId a = k) ?as) = 2"
      by (auto simp: two_components_two_parts_def list_all_iff)
    then have two_children: "length (node_children cn) = 2"
      by (simp add: k(3) length_pairs_for count)
    have "\<exists>a \<in> set ?as. shows_association db a cn sn" if "sn \<in> set (node_children cn)" for sn
    proof -
      from that k(3) obtain r where r: "r \<in> set rows" "ar_componentId r = k"
        "sn = sparePart_node (the (getSparePart db (ar_sparePartId r)), r)"
        by (auto simp: pairs_for_def)
      from r(1) s obtain a where a: "a \<in> set ?as" "r = assoc_row db a" by auto
      from r(2) a(2) have "node_id cn = JNum (ecsp_componentId a)"
        by (simp add: k(2) assoc_row_fields)
      from sparePart_node_shows [OF c _ this] a sub r(3)
      have "shows_association db a cn sn" by auto
      with a(1) show ?thesis by blast
    qed
    with two_children show ?thesis by (simp add: list_all_iff)
  qed
  have shown: "\<exists>cn \<in> set children. \<exists>sn \<in> set (node_children cn). shows_association db a cn sn"
    if "a \<in> set ?as" for a
  proof -
    from that s have r: "assoc_row db a \<in> set rows" by simp
    then have "ecsp_componentId a \<in> ar_componentId ` set rows"
      by (metis assoc_row_fields(2) imageI)
    from grouped_child_exists [OF g this] obtain cn where
      cn: "cn \<in> set children" "node_id cn = JNum (ecsp_componentId a)"
        "node_children cn = map sparePart_node (pairs_for db (ecsp_componentId a) rows)"
      unfolding children_def by blast
    let ?sn = "sparePart_node (the (getSparePart db (ar_sparePartId (assoc_row db a))), assoc_row db a)"
    from r have "assoc_row db a \<in> set (filter (\<lambda>r. ar_componentId r = ecsp_componentId a) rows)"
      by (simp add: assoc_row_fields)
    then have "(the (getSparePart db (ar_sparePartId (assoc_row db a))), assoc_row db a)
               \<in> set (pairs_for db (ecsp_componentId a) rows)"
      unfolding pairs_for_def set_map by (rule image_eqI [rotated]) simp
    then have "?sn \<in> set (node_children cn)"
      unfolding cn(3) set_map by (rule imageI)
    moreover from that sub have "shows_association db a cn ?sn"
      by (intro sparePart_node_shows [OF c _ cn(2)]) auto
    ultimately show ?thesis using cn(1) by blast
  qed
  from t len child shown show ?thesis
    unfolding children_def [symmetric] by (intro exI [of _ children]) (simp add: list_all_iff)
qed

text \<open>Machine 1 of the plant: two components with two spare-part nodes each.\<close>

theorem equipment_hierarchy_two_by_two_witness:
  "children_counts (get_api_hierarchy_equipment db_plant 1) = [2, 2]
   \<and> (\<exists>children.
           get_api_hierarchy_equipment db_plant 1 =
             Ok200 (TreeNode (JNum 1)
                      (JStr (equipment_equipmentName (the (getEquipment db_plant 1)))) EquipmentNode
                      (equipment_object (the (getEquipment db_plant 1))) children)
         \<and> length children = 2
         \<and> list_all
             (\<lambda>cn. length (node_children cn) = 2
                 \<and> list_all (\<lambda>sn. \<exists>a \<in> set (associations_of db_plant 1). shows_association db_plant a cn sn)
                     (node_children cn))
             children
         \<and> list_all
             (\<lambda>a. \<exists>cn \<in> set children. \<exists>sn \<in> set (node_children cn). shows_association db_plant a cn sn)
             (associations_of db_plant 1))"
proof (rule conjI)
  show "children_counts (get_api_hierarchy_equipment db_plant 1) = [2, 2]"
    by code_simp
  have 1: "schema_constraints db_plant" by code_simp
  have 2: "(1::int) \<noteq> 0" by simp
  have 3: "getEquipment db_plant 1 = Some (the (getEquipment db_plant 1))" by code_simp
  have 4: "two_components_two_parts db_plant 1" by code_simp
  have 5: "single_sourced db_plant 1" by code_simp
  show "\<exists>children.
           get_api_hierarchy_equipment db_plant 1 =
             Ok200 (TreeNode (JNum 1)
                      (JStr (equipment_equipmentName (the (getEquipment db_plant 1)))) EquipmentNode
                      (equipment_object (the (getEquipment db_plant 1))) children)
         \<and> length children = 2
         \<and> list_all
             (\<lambda>cn. length (node_children cn) = 2
                 \<and> list_all (\<lambda>sn. \<exists>a \<in> set (associations_of db_plant 1). shows_association db_plant a cn sn)
                     (node_children cn))
             children
         \<and> list_all
             (\<lambda>a. \<exists>cn \<in> set children. \<exists>sn \<in> set (node_children cn). shows_association db_plant a cn sn)
             (associations_of db_plant 1)"
    by (rule equipment_hierarchy_two_by_two [OF 1 2 3 4 5])
qed

text \<open>
  C4 as stated fails when a spare part has two suppliers: machine 1 still has two
  components with two spare parts each, and the node of component Spindle has three
  spare-part children, part 1 twice.
\<close>

theorem hierarchy_duplicates_counterexample:
  "schema_constraints db_second_supplier
   \<and> two_components_two_parts db_second_supplier 1
   \<and> children_counts (get_api_hierarchy_equipment db_second_supplier 1) = [2, 3]"
  by code_simp

section \<open>Deleting a base\<close>

lemma delete_base_never_404: "snd (delete_api_bases db i) \<noteq> NotFound404 msg"
  by (simp add: delete_api_bases_def deleteBase_def delete_bases_def truthy_result_def Let_def
        split: sum.splits prod.splits)

text \<open>
  C3 (the code at the failing input). On a database without any base,
  \<open>DELETE /api/bases/7\<close> deletes nothing and still answers 200 with \<open>{success: true}\<close>:
  the 404 branch is never taken, because \<open>deleteBase\<close> returns \<open>!!result\<close> of an object.
\<close>

theorem delete_missing_base_answers_200:
  "delete_api_bases db_empty 7 = (db_empty, Ok200 Success)"
  by (simp add: delete_api_bases_def deleteBase_def delete_bases_def truthy_result_def db_empty_def)

end
